theory Spec2Isabelle
  imports Main "HOL-Library.Word"
begin

text \<open>
  \<open>bin/farmer.js\<close> of storjshare-cli starts a storage node. It unlocks the private
  key of the node with a password, and, when telemetry is enabled, reports every 5
  minutes how much storage the node uses and how fast its network is. This theory
  models the three parts with a behaviour of their own: the measurement of the data
  directory, the tick of the telemetry loop, and the encryption of the key.
\<close>

section \<open>The storage measurement: \<open>getDirectorySize\<close> (farmer.js, lines 145-172)\<close>

text \<open>
  The code asks the file system two questions about a path: \<open>fs.stat\<close> and, for a
  directory, \<open>fs.readdir\<close>. What it finds under a path is a tree:
  \<^item> \<open>Inaccessible e\<close>: \<open>fs.stat\<close> fails with error \<open>e\<close> (the path does not exist, a
    component may not be searched, a link dangles);
  \<^item> \<open>File s\<close>: \<open>fs.stat\<close> succeeds and \<open>stats.isDirectory()\<close> is false; \<open>s\<close> is
    \<open>stats.size\<close>;
  \<^item> \<open>Unlistable s e\<close>: a directory of \<open>stats.size\<close> \<open>s\<close> whose \<open>fs.readdir\<close> fails with
    \<open>e\<close>;
  \<^item> \<open>Dir s entries\<close>: a directory of \<open>stats.size\<close> \<open>s\<close> whose \<open>fs.readdir\<close> lists
    \<open>entries\<close>; the node found at \<open>path.join(dir, diritem)\<close> stands for each name.
  The tree is finite: \<open>fs.stat\<close> follows links, and a link back to an ancestor, which
  the operating system cuts off with an error after finitely many levels, is that
  error at that level.
\<close>

type_synonym fs_error = string

datatype node =
    Inaccessible fs_error
  | File nat
  | Unlistable nat fs_error
  | Dir nat "node list"

text \<open>
  A JavaScript number as the size computations meet it: a count of bytes, or \<open>NaN\<close>
  once \<open>undefined\<close> has been added. The second argument of a callback is a
  \<open>js_num option\<close>: \<open>None\<close> is \<open>undefined\<close>, what \<open>callback(err)\<close> passes.
\<close>

datatype js_num = Num nat | NaN

fun js_add :: "js_num \<Rightarrow> js_num option \<Rightarrow> js_num" where
  "js_add (Num a) (Some (Num b)) = Num (a + b)"
| "js_add _ _ = NaN"

text \<open>
  \<open>getDirectorySize t\<close> is the pair \<open>(err, size)\<close> that the callback receives.
  \<open>each_size tot entries\<close> is \<open>async.each(list, iterator, done)\<close> with \<open>tot\<close> the
  variable \<open>total\<close>: the iterator adds the child's \<open>size\<close> to \<open>total\<close> and calls
  \<open>next(err)\<close>; the first \<open>err\<close> makes \<open>async.each\<close> call \<open>done(err)\<close> at once and
  ignore every later \<open>next\<close>; after the last child \<open>done()\<close> is called without an
  error. The children run concurrently and complete in any order; the model
  completes them in list order, one schedule among the possible ones. Whether
  \<open>err\<close> is set does not depend on the schedule (it is set exactly when some child
  reports an error); which error comes first and the \<open>total\<close> passed along with it
  do.
\<close>

fun getDirectorySize :: "node \<Rightarrow> fs_error option \<times> js_num option"
  and each_size :: "js_num \<Rightarrow> node list \<Rightarrow> fs_error option \<times> js_num option" where
  "getDirectorySize (Inaccessible e) = (Some e, Some (Num 0))"
| "getDirectorySize (File s) = (None, Some (Num 0))"
| "getDirectorySize (Unlistable s e) = (Some e, None)"
| "getDirectorySize (Dir s list) = each_size (Num s) list"
| "each_size tot [] = (None, Some tot)"
| "each_size tot (child # rest) =
     (case getDirectorySize child of
        (err, sz) \<Rightarrow>
          (case err of
             Some e \<Rightarrow> (Some e, Some (js_add tot sz))
           | None \<Rightarrow> each_size (js_add tot sz) rest))"

text \<open>
  A node is readable when \<open>fs.stat\<close> and, for a directory, \<open>fs.readdir\<close> succeed on
  it and on everything below it.
\<close>

fun readable :: "node \<Rightarrow> bool" where
  "readable (Inaccessible e) = False"
| "readable (File s) = True"
| "readable (Unlistable s e) = False"
| "readable (Dir s list) = list_all readable list"

text \<open>The root itself is inaccessible: its \<open>fs.stat\<close> or its \<open>fs.readdir\<close> fails.\<close>

fun root_inaccessible :: "node \<Rightarrow> bool" where
  "root_inaccessible (Inaccessible e) = True"
| "root_inaccessible (Unlistable s e) = True"
| "root_inaccessible _ = False"

text \<open>The \<open>stats.size\<close> of the directories of a tree, added up.\<close>

fun dir_sizes :: "node \<Rightarrow> nat" where
  "dir_sizes (Dir s list) = s + sum_list (map dir_sizes list)"
| "dir_sizes _ = 0"


section \<open>The telemetry tick: \<open>report\<close> and \<open>send\<close> (farmer.js, lines 198-287)\<close>

text \<open>
  The bandwidth sample as the cache file holds it and as line 275 builds it. Times are
  milliseconds since the epoch; the rates are carried along, never computed with.
\<close>

record bandwidth =
  upload :: int
  download :: int
  timestamp :: int

text \<open>The fields of \<open>config\<close> that the tick reads.\<close>

record config =
  storage_path :: string
  storage_size :: int
  storage_unit :: string
  address :: string

record storage_report =
  free :: int
  used :: "js_num option"

record bandwidth_report =
  upload :: int
  download :: int

record telemetry_report =
  storage :: storage_report
  bandwidth :: bandwidth_report
  contact :: string
  payment :: string

record log_line =
  type :: string
  message :: string
  timestamp :: int

datatype js_error = SyntaxError string | Error string

text \<open>
  What one tick meets outside the program:
  \<^item> \<open>cache_file\<close>: \<open>None\<close> when \<open>fs.existsSync(SPEEDTEST_RESULT_PATH)\<close> is false, else the
    text that \<open>fs.readFileSync\<close> returns (a cache file that exists can be read, and
    line 281 can write it);
  \<^item> \<open>JSON_parse\<close>: the built-in \<open>JSON.parse\<close> on the text of the cache file, either
    the exception it throws or the object it returns; a text that parses is taken to
    hold what line 281 writes there, an object with the three numbers \<open>upload\<close>,
    \<open>download\<close> and \<open>timestamp\<close>;
  \<^item> \<open>now\<close>: the time value of \<open>new Date()\<close> at line 260;
  \<^item> \<open>speedtest\<close>: what the speed-test client passes to its callback, \<open>err.message\<close>
    or \<open>result.upload\<close> and \<open>result.download\<close>;
  \<^item> \<open>date_now\<close>: \<open>Date.now()\<close> at line 278;
  \<^item> \<open>fs\<close>: what the file system holds under a path during this tick;
  \<^item> \<open>reporter_send\<close>: what \<open>reporter.send\<close> passes to its callback for a report,
    \<open>err.message\<close> or the text \<open>JSON.stringify\<close> gives for the report passed back
    (the speed-test client, the measurement and the reporter do call back);
  \<^item> \<open>log_date\<close>: \<open>new Date()\<close> when the log line is written.
\<close>

record env =
  cache_file :: "string option"
  JSON_parse :: "string \<Rightarrow> js_error + bandwidth"
  now :: int
  speedtest :: "string + int \<times> int"
  date_now :: int
  fs :: "string \<Rightarrow> node"
  reporter_send :: "telemetry_report \<Rightarrow> string + string"
  log_date :: int

text \<open>
  What one tick does, in the order in which it does it. JavaScript runs a function
  to its end before any callback: within a tick the order below is the only one.
  \<^item> \<open>SpeedTest_test url\<close>: line 266 starts the speed test;
  \<^item> \<open>Stdout_write l\<close>: \<open>process.stdout.write\<close> of the line \<open>JSON.stringify(l)\<close>;
  \<^item> \<open>WriteFileSync b\<close>: line 281 writes \<open>JSON.stringify(b)\<close> to the cache file;
  \<^item> \<open>GetDirectorySize_call p\<close>: line 206 starts the measurement of \<open>p\<close>;
  \<^item> \<open>SetTimeout d\<close>: line 250 arms the timer that calls \<open>report\<close> again after \<open>d\<close> ms;
  \<^item> \<open>GetDirectorySize_callback err size\<close>: the measurement calls back;
  \<^item> \<open>Reporter_send r\<close>: line 240 hands the report \<open>r\<close> to the reporter;
  \<^item> \<open>Throw e\<close>: \<open>report\<close> ends with the uncaught exception \<open>e\<close>.
\<close>

datatype event =
    SpeedTest_test string
  | Stdout_write log_line
  | WriteFileSync bandwidth
  | GetDirectorySize_call string
  | SetTimeout nat
  | GetDirectorySize_callback "fs_error option" "js_num option"
  | Reporter_send telemetry_report
  | Throw js_error

definition SPEEDTEST_URL :: string where
  "SPEEDTEST_URL = ''ws://speedofme.storj.io''"

definition hours25 :: int where
  "hours25 = 60 * 60 * 25 * 1000"

text \<open>
  Line 260 subtracts two \<open>Date\<close> objects. The time value of a \<open>Date\<close> lies within
  8640000000000000 ms of the epoch; \<open>new Date(t)\<close> for a number \<open>t\<close> beyond is an
  invalid date, whose value is \<open>NaN\<close>. \<open>Date_minus a b\<close> is the difference of the
  dates of the time values \<open>a\<close> and \<open>b\<close>: \<open>None\<close> is \<open>NaN\<close>. (The difference of two
  valid time values may be rounded, beyond \<open>2\<^sup>5\<^sup>3\<close>; the rounding does not move it
  across \<open>hours25\<close>.) \<open>js_greater x y\<close> is \<open>x > y\<close> on such a number: no comparison
  with \<open>NaN\<close> holds.
\<close>

definition Date_valid :: "int \<Rightarrow> bool" where
  "Date_valid t \<longleftrightarrow> - 8640000000000000 \<le> t \<and> t \<le> 8640000000000000"

definition Date_minus :: "int \<Rightarrow> int \<Rightarrow> int option" where
  "Date_minus a b = (if Date_valid a \<and> Date_valid b then Some (a - b) else None)"

definition js_greater :: "int option \<Rightarrow> int \<Rightarrow> bool" where
  "js_greater x y = (case x of None \<Rightarrow> False | Some v \<Rightarrow> v > y)"

text \<open>
  A JavaScript number that holds an integer, as the capacity computation meets it:
  a double holds an integer of up to 53 bits times a power of two up to \<open>2\<^sup>9\<^sup>7\<^sup>1\<close>
  (\<open>is_double\<close>), all of them below \<open>2\<^sup>1\<^sup>0\<^sup>2\<^sup>4\<close> in magnitude. \<open>js_times a b\<close> is the
  product \<open>a * b\<close> of such a number \<open>a\<close> and a power of two \<open>b\<close>: it is exact while
  it stays below \<open>2\<^sup>1\<^sup>0\<^sup>2\<^sup>4\<close> in magnitude, and an infinity from there on.
\<close>

datatype js_number = Number int | PlusInfinity | MinusInfinity


definition js_times :: "int \<Rightarrow> int \<Rightarrow> js_number" where
  "js_times a b =
     (if \<bar>a * b\<bar> < 2 ^ 1024 then Number (a * b)
      else if 0 < a * b then PlusInfinity else MinusInfinity)"

text \<open>
  Lines 211-225: the configured capacity in bytes. \<open>storage_size\<close> is the value of
  the number \<open>config.storage.size\<close>, an integer.
\<close>

definition totalSpace :: "config \<Rightarrow> js_number" where
  "totalSpace config =
     (let totalSpace = storage_size config in
      if storage_unit config = ''MB'' then js_times totalSpace (1024 ^ 2)
      else if storage_unit config = ''GB'' then js_times totalSpace (1024 ^ 3)
      else if storage_unit config = ''TB'' then js_times totalSpace (1024 ^ 4)
      else Number totalSpace)"

text \<open>
  Lines 227-238: the report. \<open>bw\<close> is the variable \<open>bandwidth\<close> of \<open>report\<close> that
  \<open>send\<close> closes over; \<open>None\<close> is \<open>null\<close>.
\<close>

definition build_report ::
  "config \<Rightarrow> string \<Rightarrow> bandwidth option \<Rightarrow> js_num option \<Rightarrow> telemetry_report" where
  "build_report config farmer_contact bw sz =
     \<lparr> storage = \<lparr> free = storage_size config, used = sz \<rparr>,
       bandwidth =
         \<lparr> upload = (case bw of Some b \<Rightarrow> bandwidth.upload b | None \<Rightarrow> 0),
           download = (case bw of Some b \<Rightarrow> bandwidth.download b | None \<Rightarrow> 0) \<rparr>,
       contact = farmer_contact,
       payment = address config \<rparr>"

text \<open>
  Lines 206-248: the callback that \<open>send\<close> gives to \<open>getDirectorySize\<close>. It
  computes \<open>totalSpace\<close> (here \<open>total_space\<close>) and does not use it.
\<close>

definition send_callback ::
  "env \<Rightarrow> config \<Rightarrow> string \<Rightarrow> bandwidth option \<Rightarrow> fs_error option \<Rightarrow> js_num option \<Rightarrow> event list" where
  "send_callback e config farmer_contact bw err sz =
     (case err of
        Some _ \<Rightarrow> []
      | None \<Rightarrow>
          (let total_space = totalSpace config;
               rep = build_report config farmer_contact bw sz in
           [Reporter_send rep,
            Stdout_write
              (case reporter_send e rep of
                 Inl err_message \<Rightarrow>
                   \<lparr> type = ''error'', message = err_message, timestamp = log_date e \<rparr>
               | Inr sent \<Rightarrow>
                   \<lparr> type = ''info'', message = ''sent telemetry report '' @ sent,
                     timestamp = log_date e \<rparr>)]))"

text \<open>
  Lines 205-253: \<open>send\<close> starts the measurement, arms the timer and returns; the
  measurement calls back later.
\<close>

definition send :: "env \<Rightarrow> config \<Rightarrow> string \<Rightarrow> bandwidth option \<Rightarrow> event list" where
  "send e config farmer_contact bw =
     [GetDirectorySize_call (storage_path config), SetTimeout (5 * (60 * 1000))] @
     (case getDirectorySize (fs e (storage_path config)) of
        (err, sz) \<Rightarrow>
          GetDirectorySize_callback err sz #
          send_callback e config farmer_contact bw err sz)"

text \<open>Lines 265-286: the speed test, when one is needed, and then \<open>send\<close>.\<close>

definition test_and_send ::
  "env \<Rightarrow> config \<Rightarrow> string \<Rightarrow> bool \<Rightarrow> bandwidth option \<Rightarrow> event list" where
  "test_and_send e config farmer_contact needstest bw =
     (if needstest \<and> SPEEDTEST_URL \<noteq> [] then
        SpeedTest_test SPEEDTEST_URL #
        (case speedtest e of
           Inl err_message \<Rightarrow>
             [Stdout_write \<lparr> type = ''error'', message = err_message, timestamp = log_date e \<rparr>]
         | Inr (up, down) \<Rightarrow>
             (let bw = \<lparr> bandwidth.upload = up, bandwidth.download = down, bandwidth.timestamp = date_now e \<rparr> in
              WriteFileSync bw # send e config farmer_contact (Some bw)))
      else send e config farmer_contact bw)"

text \<open>
  Lines 198-287. The text of the cache file is falsy when there is no file and when
  the file is empty.
\<close>

definition report :: "env \<Rightarrow> config \<Rightarrow> string \<Rightarrow> event list" where
  "report e config farmer_contact =
     (case cache_file e of
        None \<Rightarrow> test_and_send e config farmer_contact True None
      | Some text \<Rightarrow>
          if text = [] then test_and_send e config farmer_contact True None
          else
            (case JSON_parse e text of
               Inl exn \<Rightarrow> [Throw exn]
             | Inr bw \<Rightarrow>
                 test_and_send e config farmer_contact
                   (js_greater (Date_minus (now e) (bandwidth.timestamp bw)) hours25)
                   (Some bw)))"


subsection \<open>The loop of ticks\<close>

fun is_SetTimeout :: "event \<Rightarrow> bool" where
  "is_SetTimeout (SetTimeout d) = True"
| "is_SetTimeout _ = False"

text \<open>
  \<open>run envs config farmer_contact\<close> is the loop: the first tick meets the first
  \<open>env\<close>; the timer that a tick arms starts the next tick, which meets the next \<open>env\<close>;
  a tick that arms no timer is the last one. The result lists what each tick did.
\<close>

fun run :: "env list \<Rightarrow> config \<Rightarrow> string \<Rightarrow> event list list" where
  "run [] config farmer_contact = []"
| "run (e # es) config farmer_contact =
     report e config farmer_contact #
     (if list_ex is_SetTimeout (report e config farmer_contact)
      then run es config farmer_contact else [])"

text \<open>What a tick does after it has armed the timer.\<close>

definition after_timer :: "event list \<Rightarrow> event list" where
  "after_timer evs = drop 1 (dropWhile (\<lambda>ev. \<not> is_SetTimeout ev) evs)"

text \<open>The work of the speed-test stage, and the work on the report.\<close>

fun is_speedtest_work :: "event \<Rightarrow> bool" where
  "is_speedtest_work (SpeedTest_test url) = True"
| "is_speedtest_work (WriteFileSync b) = True"
| "is_speedtest_work _ = False"

fun is_report_work :: "event \<Rightarrow> bool" where
  "is_report_work (GetDirectorySize_callback err sz) = True"
| "is_report_work (Reporter_send r) = True"
| "is_report_work (Stdout_write l) = True"
| "is_report_work _ = False"

subsection \<open>Concrete ticks\<close>

text \<open>
  A configuration of 2 GB, a data directory with files of 100, 250 and 4096 bytes on
  two levels, and the same directory with an entry that cannot be read.
\<close>

definition config0 :: config where
  "config0 = \<lparr> storage_path = ''/data'', storage_size = 2, storage_unit = ''GB'',
               address = ''payto'' \<rparr>"

definition tree0 :: node where
  "tree0 = Dir 4096 [File 100, Dir 4096 [File 250, File 4096]]"

definition tree_locked :: node where
  "tree_locked = Dir 4096 [File 100, Unlistable 4096 ''EACCES'', Dir 4096 [File 250, File 4096]]"

definition fs0 :: "string \<Rightarrow> node" where
  "fs0 p = (if p = ''/data'' then tree0 else Inaccessible ''ENOENT'')"

text \<open>
  The cache text that line 281 writes for the sample of rates 100 and 200 taken at
  time 0. \<open>JSON_parse0\<close> is \<open>JSON.parse\<close> on the two texts it is applied to below:
  this one, and the opening brace alone, which \<open>JSON.parse\<close> rejects.
\<close>

definition dq :: "string \<Rightarrow> string" where
  "dq s = CHR 0x22 # s @ [CHR 0x22]"

definition cache_text0 :: string where
  "cache_text0 =
     ''{'' @ dq ''upload'' @ '':100,'' @ dq ''download'' @ '':200,'' @ dq ''timestamp'' @ '':0}''"

definition sample0 :: bandwidth where
  "sample0 = \<lparr> bandwidth.upload = 100, bandwidth.download = 200, bandwidth.timestamp = 0 \<rparr>"

definition JSON_parse0 :: "string \<Rightarrow> js_error + bandwidth" where
  "JSON_parse0 s =
     (if s = cache_text0 then Inr sample0
      else Inl (SyntaxError ''Unexpected end of JSON input''))"

text \<open>
  \<open>env_at t\<close>: a tick at time \<open>t\<close> that finds the cache of \<open>sample0\<close>; the speed test,
  were it run, would succeed, and the reporter accepts the report.
\<close>

definition env_at :: "int \<Rightarrow> env" where
  "env_at t =
     \<lparr> cache_file = Some cache_text0, JSON_parse = JSON_parse0, now = t,
       speedtest = Inr (300, 400), date_now = t + 30000, fs = fs0,
       reporter_send = (\<lambda>r. Inr ''{}''), log_date = t + 31000 \<rparr>"

text \<open>No cache file, and the speed test fails.\<close>

definition env_testfail :: env where
  "env_testfail = (env_at 0) \<lparr> cache_file := None, speedtest := Inl ''timeout'' \<rparr>"

text \<open>A cache file that holds an opening brace only.\<close>

definition env_garbled :: env where
  "env_garbled = (env_at 0) \<lparr> cache_file := Some ''{'' \<rparr>"

text \<open>A fresh cache and a data directory that does not exist.\<close>

definition env_nodir :: env where
  "env_nodir = (env_at 1000) \<lparr> fs := (\<lambda>p. Inaccessible ''ENOENT'') \<rparr>"


section \<open>The key vault: \<open>encrypt\<close>, \<open>decrypt\<close> and \<open>open\<close> (farmer.js, lines 174-196, 305-313)\<close>

text \<open>
  A JavaScript string is a sequence of 16-bit code units; a \<open>Buffer\<close> is a sequence
  of bytes. (The texts of the tick, paths, units and messages, are only compared and
  joined; they are \<open>string\<close>s there.)
\<close>

type_synonym byte = "8 word"
type_synonym js_string = "16 word list"

definition byte_of :: "nat \<Rightarrow> byte" where
  "byte_of n = of_nat n"

definition unit_of :: "nat \<Rightarrow> 16 word" where
  "unit_of n = of_nat n"

subsection \<open>Strings to bytes: the encoding \<open>'utf8'\<close>\<close>

text \<open>
  \<open>aes256.update(str, 'utf8')\<close> reads the string as UTF-8 bytes. A high surrogate
  followed by a low one is one code point beyond the basic plane; a surrogate that
  stands alone has no UTF-8 form, and the runtime writes the three bytes of the
  replacement character U+FFFD in its place.
\<close>

definition is_high :: "16 word \<Rightarrow> bool" where
  "is_high u \<longleftrightarrow> 0xD800 \<le> unat u \<and> unat u \<le> 0xDBFF"

definition is_low :: "16 word \<Rightarrow> bool" where
  "is_low u \<longleftrightarrow> 0xDC00 \<le> unat u \<and> unat u \<le> 0xDFFF"

definition code_point :: "16 word \<Rightarrow> 16 word \<Rightarrow> nat" where
  "code_point hi lo = 0x10000 + (unat hi - 0xD800) * 0x400 + (unat lo - 0xDC00)"

definition utf8_bytes :: "nat \<Rightarrow> byte list" where
  "utf8_bytes cp =
     (if cp < 0x80 then [byte_of cp]
      else if cp < 0x800 then [byte_of (0xC0 + cp div 64), byte_of (0x80 + cp mod 64)]
      else if cp < 0x10000 then
        [byte_of (0xE0 + cp div 4096), byte_of (0x80 + cp div 64 mod 64),
         byte_of (0x80 + cp mod 64)]
      else
        [byte_of (0xF0 + cp div 262144), byte_of (0x80 + cp div 4096 mod 64),
         byte_of (0x80 + cp div 64 mod 64), byte_of (0x80 + cp mod 64)])"

fun utf8_encode :: "js_string \<Rightarrow> byte list" where
  "utf8_encode [] = []"
| "utf8_encode [u] =
     (if is_high u \<or> is_low u then utf8_bytes 0xFFFD else utf8_bytes (unat u))"
| "utf8_encode (u # v # us) =
     (if is_high u \<and> is_low v then utf8_bytes (code_point u v) @ utf8_encode us
      else if is_high u \<or> is_low u then utf8_bytes 0xFFFD @ utf8_encode (v # us)
      else utf8_bytes (unat u) @ utf8_encode (v # us))"

text \<open>A string is well formed when every surrogate in it is half of a pair.\<close>

fun well_formed :: "js_string \<Rightarrow> bool" where
  "well_formed [] = True"
| "well_formed [u] = (\<not> is_high u \<and> \<not> is_low u)"
| "well_formed (u # v # us) =
     (if is_high u then is_low v \<and> well_formed us
      else \<not> is_low u \<and> well_formed (v # us))"

text \<open>The code points that UTF-8 encodes: up to U+10FFFF, the surrogates left out.\<close>

definition scalar :: "nat \<Rightarrow> bool" where
  "scalar cp \<longleftrightarrow> cp < 0x110000 \<and> \<not> (0xD800 \<le> cp \<and> cp \<le> 0xDFFF)"

subsection \<open>The libraries\<close>

text \<open>
  The cipher, the base-58 alphabet and the decoding of bytes into a string are not
  code of this program: \<open>crypto\<close>, \<open>bs58\<close> and \<open>Buffer\<close>. They are the fields of a
  \<open>lib\<close>:
  \<^item> \<open>cipher password data\<close>: for \<open>crypto.createCipher('aes-256-cbc', password)\<close>, what
    \<open>update(data)\<close> returns and what \<open>final()\<close> returns after it;
  \<^item> \<open>decipher password data\<close>: for \<open>crypto.createDecipher('aes-256-cbc', password)\<close>,
    what \<open>update(data)\<close> returns, and what \<open>final()\<close> returns or throws after it;
  \<^item> \<open>base58_encode\<close> and \<open>base58_decode\<close>: \<open>bs58\<close>; decoding throws on a text outside
    the alphabet;
  \<^item> \<open>toString_utf8\<close>: \<open>buf.toString('utf8')\<close>.
\<close>

record lib =
  cipher :: "js_string \<Rightarrow> byte list \<Rightarrow> byte list \<times> byte list"
  decipher :: "js_string \<Rightarrow> byte list \<Rightarrow> byte list \<times> (js_error + byte list)"
  base58_encode :: "byte list \<Rightarrow> js_string"
  base58_decode :: "js_string \<Rightarrow> js_error + byte list"
  toString_utf8 :: "byte list \<Rightarrow> js_string"

text \<open>
  What the libraries promise: deciphering under the password of the cipher gives the
  data back, in the two pieces of \<open>update\<close> and \<open>final\<close>; base-58 decoding undoes the
  encoding; the bytes of a well-formed string decode to that string.
\<close>

definition lib_laws :: "lib \<Rightarrow> bool" where
  "lib_laws l \<longleftrightarrow>
     (\<forall>password data a b. cipher l password data = (a, b) \<longrightarrow>
        (\<exists>a' b'. decipher l password (a @ b) = (a', Inr b') \<and> a' @ b' = data)) \<and>
     (\<forall>bytes. base58_decode l (base58_encode l bytes) = Inr bytes) \<and>
     (\<forall>s. well_formed s \<longrightarrow> toString_utf8 l (utf8_encode s) = s)"

text \<open>
  \<open>crypto.createCipher\<close> and \<open>crypto.createDecipher\<close> derive the key and the
  initialisation vector of AES-256-CBC from the password, 384 bits of key material
  (OpenSSL's \<open>EVP_BytesToKey\<close>, without a salt), and use the password for nothing
  else: two passwords with the same key material give the same cipher and the same
  decipher.
\<close>

definition keyed :: "lib \<Rightarrow> bool" where
  "keyed l \<longleftrightarrow>
     (\<exists>bytes_to_key :: js_string \<Rightarrow> 384 word.
        \<forall>p q. bytes_to_key p = bytes_to_key q \<longrightarrow>
          cipher l p = cipher l q \<and> decipher l p = decipher l q)"

subsection \<open>\<open>encrypt\<close> and \<open>decrypt\<close>\<close>

text \<open>
  \<open>new Buffer(n)\<close> is a buffer of \<open>n\<close> bytes; what it holds at first is not
  specified, here zeros. \<open>source.copy(target, targetStart)\<close> writes \<open>source\<close> into
  \<open>target\<close> from \<open>targetStart\<close> on, as far as \<open>target\<close> reaches.
\<close>

definition new_Buffer :: "nat \<Rightarrow> byte list" where
  "new_Buffer n = replicate n 0"

definition copy :: "byte list \<Rightarrow> byte list \<Rightarrow> nat \<Rightarrow> byte list" where
  "copy source target targetStart =
     take targetStart target @
     take (length target - targetStart) source @
     drop (targetStart + length source) target"

definition encrypt :: "lib \<Rightarrow> js_string \<Rightarrow> js_string \<Rightarrow> js_string" where
  "encrypt l password str =
     (case cipher l password (utf8_encode str) of
        (a, b) \<Rightarrow>
          (let buf = new_Buffer (length a + length b);
               buf = copy a buf 0;
               buf = copy b buf (length a)
           in base58_encode l buf))"

definition decrypt :: "lib \<Rightarrow> js_string \<Rightarrow> js_string \<Rightarrow> js_error + js_string" where
  "decrypt l password str =
     (case base58_decode l str of
        Inl exn \<Rightarrow> Inl exn
      | Inr bytes \<Rightarrow>
          (case decipher l password bytes of
             (a, Inl exn) \<Rightarrow> Inl exn
           | (a, Inr b) \<Rightarrow>
               (let buf = new_Buffer (length a + length b);
                    buf = copy a buf 0;
                    buf = copy b buf (length a)
                in Inr (toString_utf8 l buf))))"

text \<open>
  Lines 305-313, the head of \<open>open\<close>: an exception of \<open>decrypt\<close> is caught, the
  message is printed and \<open>process.exit()\<close> ends the process (\<open>Inl\<close> with the message);
  otherwise the decrypted text goes on to \<open>storj.KeyPair\<close> (\<open>Inr\<close>).
\<close>

definition open_privkey :: "lib \<Rightarrow> js_string \<Rightarrow> js_string \<Rightarrow> string + js_string" where
  "open_privkey l passwd privkey =
     (case decrypt l passwd privkey of
        Inl err \<Rightarrow> Inl ''Failed to unlock private key - incorrect password''
      | Inr privkey \<Rightarrow> Inr privkey)"

subsection \<open>A library that keeps the laws\<close>

text \<open>
  The laws can be kept: \<open>plain_lib\<close> keeps them. Its decoder \<open>utf8_decode\<close> reads
  UTF-8 sequence by sequence and puts U+FFFD for a byte that starts none; its
  cipher adds a byte derived from the password to every byte and closes with that
  byte, which the decipher checks; its alphabet writes every byte as one code unit.
\<close>

definition units :: "nat \<Rightarrow> js_string" where
  "units cp =
     (if cp < 0x10000 then [unit_of cp]
      else [unit_of (0xD800 + (cp - 0x10000) div 0x400),
            unit_of (0xDC00 + (cp - 0x10000) mod 0x400)])"

definition cont :: "byte \<Rightarrow> bool" where
  "cont b \<longleftrightarrow> 0x80 \<le> unat b \<and> unat b \<le> 0xBF"

definition cp2 :: "byte \<Rightarrow> byte \<Rightarrow> nat" where
  "cp2 b0 b1 = (unat b0 - 0xC0) * 64 + (unat b1 - 0x80)"

definition cp3 :: "byte \<Rightarrow> byte \<Rightarrow> byte \<Rightarrow> nat" where
  "cp3 b0 b1 b2 = (unat b0 - 0xE0) * 4096 + (unat b1 - 0x80) * 64 + (unat b2 - 0x80)"

definition cp4 :: "byte \<Rightarrow> byte \<Rightarrow> byte \<Rightarrow> byte \<Rightarrow> nat" where
  "cp4 b0 b1 b2 b3 =
     (unat b0 - 0xF0) * 262144 + (unat b1 - 0x80) * 4096 + (unat b2 - 0x80) * 64 +
     (unat b3 - 0x80)"

text \<open>The length of the UTF-8 sequence at the head of the bytes; 0 when there is none.\<close>

fun seq_len :: "byte list \<Rightarrow> nat" where
  "seq_len [] = 0"
| "seq_len (b0 # bs) =
     (if unat b0 < 0x80 then 1
      else if 0xC2 \<le> unat b0 \<and> unat b0 \<le> 0xDF then
        (case bs of b1 # _ \<Rightarrow> if cont b1 then 2 else 0 | _ \<Rightarrow> 0)
      else if 0xE0 \<le> unat b0 \<and> unat b0 \<le> 0xEF then
        (case bs of b1 # b2 # _ \<Rightarrow>
           if cont b1 \<and> cont b2 \<and> 0x800 \<le> cp3 b0 b1 b2 \<and> scalar (cp3 b0 b1 b2)
           then 3 else 0
         | _ \<Rightarrow> 0)
      else if 0xF0 \<le> unat b0 \<and> unat b0 \<le> 0xF4 then
        (case bs of b1 # b2 # b3 # _ \<Rightarrow>
           if cont b1 \<and> cont b2 \<and> cont b3 \<and> 0x10000 \<le> cp4 b0 b1 b2 b3 \<and>
              scalar (cp4 b0 b1 b2 b3)
           then 4 else 0
         | _ \<Rightarrow> 0)
      else 0)"

definition seq_cp :: "byte list \<Rightarrow> nat" where
  "seq_cp bs =
     (case seq_len bs of
        Suc 0 \<Rightarrow> unat (bs ! 0)
      | Suc (Suc 0) \<Rightarrow> cp2 (bs ! 0) (bs ! 1)
      | Suc (Suc (Suc 0)) \<Rightarrow> cp3 (bs ! 0) (bs ! 1) (bs ! 2)
      | Suc (Suc (Suc (Suc 0))) \<Rightarrow> cp4 (bs ! 0) (bs ! 1) (bs ! 2) (bs ! 3)
      | _ \<Rightarrow> 0xFFFD)"

function utf8_decode :: "byte list \<Rightarrow> js_string" where
  "utf8_decode [] = []"
| "utf8_decode (b # bs) =
     units (seq_cp (b # bs)) @ utf8_decode (drop (seq_len (b # bs) - 1) bs)"
  by pat_completeness auto
termination
  by (relation "measure length") auto

definition key_of :: "js_string \<Rightarrow> byte" where
  "key_of password = byte_of (length password mod 256)"

definition mask_cipher :: "js_string \<Rightarrow> byte list \<Rightarrow> byte list \<times> byte list" where
  "mask_cipher password data = (map (\<lambda>x. x + key_of password) data, [key_of password])"

definition mask_decipher ::
  "js_string \<Rightarrow> byte list \<Rightarrow> byte list \<times> (js_error + byte list)" where
  "mask_decipher password bytes =
     (map (\<lambda>x. x - key_of password) (butlast bytes),
      if bytes \<noteq> [] \<and> last bytes = key_of password then Inr []
      else Inl (Error ''bad decrypt''))"

definition units_encode :: "byte list \<Rightarrow> js_string" where
  "units_encode bytes = map (\<lambda>b. unit_of (unat b)) bytes"

definition units_decode :: "js_string \<Rightarrow> js_error + byte list" where
  "units_decode s =
     (if list_all (\<lambda>u. unat u < 256) s then Inr (map (\<lambda>u. byte_of (unat u)) s)
      else Inl (Error ''Non-base58 character''))"

definition plain_lib :: lib where
  "plain_lib = \<lparr> cipher = mask_cipher, decipher = mask_decipher,
                  base58_encode = units_encode, base58_decode = units_decode,
                  toString_utf8 = utf8_decode \<rparr>"

text \<open>The password \<open>pw\<close> and the plaintext \<open>abc\<close>.\<close>

definition password0 :: js_string where
  "password0 = [0x70, 0x77]"

definition plaintext0 :: js_string where
  "plaintext0 = [0x61, 0x62, 0x63]"

section \<open>Properties of the storage measurement\<close>

lemma getDirectorySize_ok_iff: "fst (getDirectorySize t) = None \<longleftrightarrow> readable t"
  and each_size_ok_iff: "fst (each_size tot list) = None \<longleftrightarrow> list_all readable list"
  by (induction t and tot list rule: getDirectorySize_each_size.induct)
     (auto split: prod.splits option.splits)

text \<open>
  What a successful measurement returns: the sizes of the directories. An entry
  that is not a directory adds 0 (line 148).
\<close>

lemma js_add_Num: "js_add (js_add tot (Some (Num a))) (Some (Num b)) = js_add tot (Some (Num (a + b)))"
  by (cases tot) simp_all

lemma getDirectorySize_readable:
  "readable t \<Longrightarrow> getDirectorySize t = (None, Some (Num (dir_sizes t)))"
  and each_size_readable:
    "list_all readable list \<Longrightarrow>
       each_size tot list =
         (None, Some (js_add tot (Some (Num (sum_list (map dir_sizes list))))))"
proof (induction t and tot list rule: getDirectorySize_each_size.induct)
  case (5 tot)
  then show ?case by (cases tot) simp_all
next
  case (6 tot child rest)
  then show ?case by (simp add: js_add_Num)
qed simp_all

lemma root_inaccessible_not_readable: "root_inaccessible t \<Longrightarrow> \<not> readable t"
  by (cases t) simp_all

lemma root_inaccessible_err:
  "root_inaccessible t \<Longrightarrow> \<exists>err. fst (getDirectorySize t) = Some err"
  by (cases t) simp_all

lemma getDirectorySize_tree0: "getDirectorySize tree0 = (None, Some (Num 8192))"
  by (simp add: tree0_def)

lemma getDirectorySize_tree_locked: "getDirectorySize tree_locked = (Some ''EACCES'', Some NaN)"
  by (simp add: tree_locked_def)

text \<open>
  Counterexample to the measurement skipping what it cannot read: in \<open>tree_locked\<close>
  the root can be read and listed, one of its three entries is a directory that
  cannot be listed, and the measurement of the root calls back with that error.
\<close>

theorem unreadable_entry_fails_measurement:
  "\<not> root_inaccessible tree_locked \<and> fst (getDirectorySize tree_locked) = Some ''EACCES''"
  by (simp add: getDirectorySize_tree_locked) (simp add: tree_locked_def)

text \<open>
  C3, amended. The measurement of a tree fails with a file-system error exactly when
  the root or some node below it cannot be read: the error of an unreadable entry
  is passed up to the callback of the root, the entry is not skipped.
\<close>

theorem measurement_fails_iff_unreadable:
  "(\<exists>err. fst (getDirectorySize t) = Some err) \<longleftrightarrow> \<not> readable t"
  using getDirectorySize_ok_iff [of t] by auto

theorem measurement_fails_iff_unreadable_witness:
  "(\<exists>err. fst (getDirectorySize tree_locked) = Some err) \<and> \<not> readable tree_locked \<and>
   fst (getDirectorySize tree0) = None \<and> readable tree0"
  using measurement_fails_iff_unreadable [of tree_locked]
    measurement_fails_iff_unreadable [of tree0]
  by (simp add: getDirectorySize_tree_locked getDirectorySize_tree0)

section \<open>Properties of the tick\<close>

lemma SPEEDTEST_URL_truthy: "SPEEDTEST_URL \<noteq> []"
  by (simp add: SPEEDTEST_URL_def)

lemma send_callback_err: "send_callback e config c bw (Some err) sz = []"
  by (simp add: send_callback_def)

lemma send_callback_ok:
  "send_callback e config c bw None sz =
     [Reporter_send (build_report config c bw sz),
      Stdout_write
        (case reporter_send e (build_report config c bw sz) of
           Inl err_message \<Rightarrow>
             \<lparr> type = ''error'', message = err_message, timestamp = log_date e \<rparr>
         | Inr sent \<Rightarrow>
             \<lparr> type = ''info'', message = ''sent telemetry report '' @ sent,
               timestamp = log_date e \<rparr>)]"
  by (simp add: send_callback_def Let_def)

lemma send_events:
  "send e config c bw =
     [GetDirectorySize_call (storage_path config), SetTimeout 300000,
      GetDirectorySize_callback (fst (getDirectorySize (fs e (storage_path config))))
        (snd (getDirectorySize (fs e (storage_path config))))] @
     send_callback e config c bw (fst (getDirectorySize (fs e (storage_path config))))
        (snd (getDirectorySize (fs e (storage_path config))))"
  by (simp add: send_def split: prod.splits)

lemma test_and_send_fresh: "test_and_send e config c False bw = send e config c bw"
  by (simp add: test_and_send_def)

lemma test_and_send_stale_fail:
  "speedtest e = Inl m \<Longrightarrow> test_and_send e config c True bw =
     [SpeedTest_test SPEEDTEST_URL,
      Stdout_write \<lparr> type = ''error'', message = m, timestamp = log_date e \<rparr>]"
  by (simp add: test_and_send_def SPEEDTEST_URL_truthy)

lemma test_and_send_stale_ok:
  "speedtest e = Inr (up, down) \<Longrightarrow> test_and_send e config c True bw =
     SpeedTest_test SPEEDTEST_URL #
     WriteFileSync
       \<lparr> bandwidth.upload = up, bandwidth.download = down,
         bandwidth.timestamp = date_now e \<rparr> #
     send e config c
       (Some \<lparr> bandwidth.upload = up, bandwidth.download = down,
               bandwidth.timestamp = date_now e \<rparr>)"
  by (simp add: test_and_send_def Let_def SPEEDTEST_URL_truthy)

lemma report_no_cache:
  "cache_file e = None \<or> cache_file e = Some [] \<Longrightarrow>
     report e config c = test_and_send e config c True None"
  by (auto simp: report_def)

lemma report_parsed:
  "cache_file e = Some text \<Longrightarrow> text \<noteq> [] \<Longrightarrow> JSON_parse e text = Inr bw \<Longrightarrow>
     report e config c =
       test_and_send e config c
         (js_greater (Date_minus (now e) (bandwidth.timestamp bw)) hours25) (Some bw)"
  by (simp add: report_def)

lemma js_greater_Date_minus:
  "js_greater (Date_minus a b) y \<longleftrightarrow> Date_valid a \<and> Date_valid b \<and> a - b > y"
  by (auto simp: js_greater_def Date_minus_def)

lemma report_throws:
  "cache_file e = Some text \<Longrightarrow> text \<noteq> [] \<Longrightarrow> JSON_parse e text = Inl exn \<Longrightarrow>
     report e config c = [Throw exn]"
  by (simp add: report_def)

lemma send_callback_cases:
  "send_callback e config c bw err sz = [] \<or>
   (\<exists>l. send_callback e config c bw err sz = [Reporter_send (build_report config c bw sz),
      Stdout_write l])"
  by (cases err) (simp_all add: send_callback_err send_callback_ok)

lemma speedtest_not_in_send: "SpeedTest_test url \<notin> set (send e config c bw)"
  using send_callback_cases [of e config c bw "fst (getDirectorySize (fs e (storage_path config)))"
      "snd (getDirectorySize (fs e (storage_path config)))"]
  by (auto simp: send_events)

lemma speedtest_in_test_and_send:
  "SpeedTest_test url \<in> set (test_and_send e config c needstest bw) \<longleftrightarrow>
     needstest \<and> url = SPEEDTEST_URL"
  by (cases "speedtest e")
     (auto simp: test_and_send_def Let_def SPEEDTEST_URL_truthy speedtest_not_in_send)

text \<open>The fixtures.\<close>

lemma cache_text0_truthy: "cache_text0 \<noteq> []"
  by (simp add: cache_text0_def)

lemma JSON_parse0_cache: "JSON_parse0 cache_text0 = Inr sample0"
  by (simp add: JSON_parse0_def)

lemma JSON_parse0_brace:
  "JSON_parse0 ''{'' = Inl (SyntaxError ''Unexpected end of JSON input'')"
  by (simp add: JSON_parse0_def cache_text0_def)

lemma env_at_fields:
  "cache_file (env_at t) = Some cache_text0" "JSON_parse (env_at t) = JSON_parse0"
  "now (env_at t) = t" "speedtest (env_at t) = Inr (300, 400)" "date_now (env_at t) = t + 30000"
  "fs (env_at t) = fs0" "log_date (env_at t) = t + 31000"
  "reporter_send (env_at t) r = Inr ''{}''"
  by (simp_all add: env_at_def)

lemma fs0_data: "fs0 ''/data'' = tree0"
  by (simp add: fs0_def)

lemma config0_fields:
  "storage_path config0 = ''/data''" "storage_size config0 = 2"
  "storage_unit config0 = ''GB''" "address config0 = ''payto''"
  by (simp_all add: config0_def)

lemma send_env_at:
  "send (env_at t) config0 c bw =
     [GetDirectorySize_call ''/data'', SetTimeout 300000,
      GetDirectorySize_callback None (Some (Num 8192)),
      Reporter_send (build_report config0 c bw (Some (Num 8192))),
      Stdout_write \<lparr> type = ''info'', message = ''sent telemetry report {}'',
                     timestamp = t + 31000 \<rparr>]"
  by (simp add: send_events send_callback_ok env_at_fields fs0_data config0_fields
      getDirectorySize_tree0)

lemma report_env_at:
  "report (env_at t) config0 c =
     test_and_send (env_at t) config0 c (Date_valid t \<and> t > hours25) (Some sample0)"
  using report_parsed [of "env_at t" cache_text0 sample0 config0 c]
  by (simp add: env_at_fields cache_text0_truthy JSON_parse0_cache js_greater_Date_minus)
     (simp add: sample0_def Date_valid_def)

lemma report_env_at_fresh:
  "t \<le> 90000000 \<Longrightarrow> report (env_at t) config0 c = send (env_at t) config0 c (Some sample0)"
  by (simp add: report_env_at hours25_def test_and_send_fresh)

subsection \<open>The freshness boundary\<close>

text \<open>
  Counterexample to a sample of exactly 25 hours being stale: the tick at time
  90000000 finds the sample taken at time 0, whose age is the threshold exactly;
  it starts no speed test and reports with the cached sample.
\<close>

theorem sample_at_threshold_is_fresh:
  "now (env_at 90000000) - bandwidth.timestamp sample0 = hours25 \<and>
   SpeedTest_test SPEEDTEST_URL \<notin> set (report (env_at 90000000) config0 ''contact'') \<and>
   report (env_at 90000000) config0 ''contact'' =
     send (env_at 90000000) config0 ''contact'' (Some sample0)"
  by (simp add: report_env_at_fresh speedtest_not_in_send)
     (simp add: env_at_fields sample0_def hours25_def)

text \<open>
  C1, amended. For every tick at a valid time that finds a cache file holding a
  sample whose timestamp is a valid date (within 8640000000000000 ms of the epoch),
  the speed test is started exactly when the age of the sample exceeds the window of
  25 hours (90000000 ms): a sample whose age equals the window is fresh, as is one
  of age threshold minus 1 ms, and a sample of age threshold plus 1 ms is stale.
\<close>

theorem stale_iff_age_exceeds_window:
  assumes "cache_file e = Some text" and "text \<noteq> []" and "JSON_parse e text = Inr bw"
    and "Date_valid (now e)" and "Date_valid (bandwidth.timestamp bw)"
  shows "(SpeedTest_test SPEEDTEST_URL \<in> set (report e config c) \<longleftrightarrow>
            now e - bandwidth.timestamp bw > hours25) \<and>
         hours25 = 90000000"
  using assms
  by (simp add: report_parsed speedtest_in_test_and_send js_greater_Date_minus)
     (simp add: hours25_def)

theorem stale_iff_age_exceeds_window_witness:
  "cache_file (env_at 90000001) = Some cache_text0 \<and> cache_text0 \<noteq> [] \<and>
   JSON_parse (env_at 90000001) cache_text0 = Inr sample0 \<and>
   Date_valid (now (env_at 90000001)) \<and> Date_valid (bandwidth.timestamp sample0) \<and>
   now (env_at 90000001) - bandwidth.timestamp sample0 = hours25 + 1 \<and>
   SpeedTest_test SPEEDTEST_URL \<in> set (report (env_at 90000001) config0 ''contact'') \<and>
   cache_file (env_at 89999999) = Some cache_text0 \<and>
   JSON_parse (env_at 89999999) cache_text0 = Inr sample0 \<and>
   Date_valid (now (env_at 89999999)) \<and>
   now (env_at 89999999) - bandwidth.timestamp sample0 = hours25 - 1 \<and>
   SpeedTest_test SPEEDTEST_URL \<notin> set (report (env_at 89999999) config0 ''contact'')"
proof -
  have v: "Date_valid (now (env_at 90000001))" "Date_valid (now (env_at 89999999))"
    "Date_valid (bandwidth.timestamp sample0)"
    by (simp_all add: env_at_fields sample0_def Date_valid_def)
  have a: "now (env_at 90000001) - bandwidth.timestamp sample0 = hours25 + 1"
    "now (env_at 89999999) - bandwidth.timestamp sample0 = hours25 - 1"
    by (simp_all add: env_at_fields sample0_def hours25_def)
  have f: "cache_file (env_at 90000001) = Some cache_text0"
    "JSON_parse (env_at 90000001) cache_text0 = Inr sample0"
    "cache_file (env_at 89999999) = Some cache_text0"
    "JSON_parse (env_at 89999999) cache_text0 = Inr sample0"
    by (simp_all add: env_at_fields JSON_parse0_cache)
  have "SpeedTest_test SPEEDTEST_URL \<in> set (report (env_at 90000001) config0 ''contact'')"
    using stale_iff_age_exceeds_window
      [OF f(1) cache_text0_truthy f(2) v(1) v(3), of config0 "''contact''"] a(1)
    by simp
  moreover
  have "SpeedTest_test SPEEDTEST_URL \<notin> set (report (env_at 89999999) config0 ''contact'')"
    using stale_iff_age_exceeds_window
      [OF f(3) cache_text0_truthy f(4) v(2) v(3), of config0 "''contact''"] a(2)
    by simp
  ultimately show ?thesis using v a f cache_text0_truthy by simp
qed

text \<open>
  A timestamp that is no valid date gives the age \<open>NaN\<close>, which exceeds nothing:
  the sample counts as fresh.
\<close>

lemma invalid_timestamp_is_fresh:
  assumes "cache_file e = Some text" and "text \<noteq> []" and "JSON_parse e text = Inr bw"
    and "\<not> Date_valid (bandwidth.timestamp bw)"
  shows "SpeedTest_test SPEEDTEST_URL \<notin> set (report e config c)"
  using assms
  by (simp add: report_parsed speedtest_in_test_and_send js_greater_Date_minus)

subsection \<open>The next tick\<close>

lemma env_testfail_fields:
  "cache_file env_testfail = None" "speedtest env_testfail = Inl ''timeout''"
  "log_date env_testfail = 31000"
  by (simp_all add: env_testfail_def env_at_def)

lemma report_env_testfail:
  "report env_testfail config0 c =
     [SpeedTest_test SPEEDTEST_URL,
      Stdout_write \<lparr> type = ''error'', message = ''timeout'', timestamp = 31000 \<rparr>]"
  by (simp add: report_no_cache env_testfail_fields test_and_send_stale_fail)

text \<open>
  C2. The tick that finds no cache file and whose speed test fails writes the error
  line and returns: it arms no timer, and the loop ends with it, the second tick
  never runs. The code does not do what the claim says.
\<close>

theorem failed_speed_test_arms_no_timer:
  "report env_testfail config0 ''contact'' =
     [SpeedTest_test SPEEDTEST_URL,
      Stdout_write \<lparr> type = ''error'', message = ''timeout'', timestamp = 31000 \<rparr>] \<and>
   \<not> list_ex is_SetTimeout (report env_testfail config0 ''contact'') \<and>
   run [env_testfail, env_at 300000] config0 ''contact'' =
     [report env_testfail config0 ''contact'']"
  by (simp add: report_env_testfail)

text \<open>
  Whenever \<open>send\<close> is reached, the timer is armed, with 5 minutes: whether the
  measurement fails, the delivery fails or the report is sent. It is not armed
  exactly when the speed test was needed and failed.
\<close>

lemma send_arms_timer: "SetTimeout 300000 \<in> set (send e config c bw)"
  by (simp add: send_events)

lemma timer_armed_unless_test_fails:
  "SetTimeout 300000 \<in> set (test_and_send e config c needstest bw) \<longleftrightarrow>
     \<not> (needstest \<and> (\<exists>m. speedtest e = Inl m))"
proof (cases needstest)
  case False
  then show ?thesis by (simp add: test_and_send_fresh send_arms_timer)
next
  case True
  show ?thesis
  proof (cases "speedtest e")
    case (Inl m)
    with True show ?thesis by (simp add: test_and_send_stale_fail)
  next
    case (Inr ud)
    then obtain up down where "speedtest e = Inr (up, down)" by (cases ud) simp
    with True show ?thesis by (simp add: test_and_send_stale_ok send_arms_timer)
  qed
qed

subsection \<open>A data directory that cannot be measured\<close>

text \<open>A measurement that fails leaves the tick without a report.\<close>

lemma send_not_readable:
  assumes "\<not> readable (fs e (storage_path config))"
  shows "send e config c bw =
     [GetDirectorySize_call (storage_path config), SetTimeout 300000,
      GetDirectorySize_callback (fst (getDirectorySize (fs e (storage_path config))))
        (snd (getDirectorySize (fs e (storage_path config))))]"
proof -
  from assms obtain err where "fst (getDirectorySize (fs e (storage_path config))) = Some err"
    using getDirectorySize_ok_iff [of "fs e (storage_path config)"] by auto
  then show ?thesis by (simp add: send_events send_callback_err)
qed

lemma no_send_test_and_send:
  assumes "\<not> readable (fs e (storage_path config))"
  shows "Reporter_send r \<notin> set (test_and_send e config c needstest bw)"
proof (cases "speedtest e")
  case (Inl m)
  then show ?thesis
    by (cases needstest)
       (simp_all add: test_and_send_stale_fail test_and_send_fresh send_not_readable [OF assms])
next
  case (Inr ud)
  then obtain up down where "speedtest e = Inr (up, down)" by (cases ud) simp
  then show ?thesis
    by (cases needstest)
       (simp_all add: test_and_send_stale_ok test_and_send_fresh send_not_readable [OF assms])
qed

lemma no_send_report:
  assumes "\<not> readable (fs e (storage_path config))"
  shows "Reporter_send r \<notin> set (report e config c)"
  unfolding report_def
  by (simp add: no_send_test_and_send [OF assms] split: option.splits sum.splits)

lemma env_nodir_fields:
  "cache_file env_nodir = Some cache_text0" "JSON_parse env_nodir = JSON_parse0"
  "now env_nodir = 1000" "fs env_nodir p = Inaccessible ''ENOENT''"
  by (simp_all add: env_nodir_def env_at_def)

lemma report_env_nodir:
  "report env_nodir config0 c =
     [GetDirectorySize_call ''/data'', SetTimeout 300000,
      GetDirectorySize_callback (Some ''ENOENT'') (Some (Num 0))]"
proof -
  have "report env_nodir config0 c = send env_nodir config0 c (Some sample0)"
    using report_parsed [of env_nodir cache_text0 sample0 config0 c]
    by (simp add: env_nodir_fields cache_text0_truthy JSON_parse0_cache sample0_def hours25_def
        js_greater_Date_minus test_and_send_fresh)
  then show ?thesis
    by (simp add: send_events env_nodir_fields send_callback_err config0_fields)
qed

text \<open>
  Counterexample to the report with used size 0: the data directory does not exist,
  the measurement calls back with the error \<open>ENOENT\<close> next to the size 0, and
  the tick, whose cache is fresh, hands no report to the reporter.
\<close>

theorem missing_root_sends_no_report:
  "getDirectorySize (fs env_nodir (storage_path config0)) = (Some ''ENOENT'', Some (Num 0)) \<and>
   report env_nodir config0 ''contact'' =
     [GetDirectorySize_call ''/data'', SetTimeout 300000,
      GetDirectorySize_callback (Some ''ENOENT'') (Some (Num 0))]"
  by (simp add: report_env_nodir env_nodir_fields)

text \<open>
  C4, amended. For every root path that does not exist or is inaccessible, the
  measurement calls back with the file-system error (next to the size 0 when the
  path cannot be examined at all), and the tick hands no report to the reporter:
  the failed measurement suppresses the report.
\<close>

theorem inaccessible_root_suppresses_report:
  assumes "root_inaccessible (fs e (storage_path config))"
  shows "(\<exists>err. fst (getDirectorySize (fs e (storage_path config))) = Some err) \<and>
         (\<forall>x. fs e (storage_path config) = Inaccessible x \<longrightarrow>
            getDirectorySize (fs e (storage_path config)) = (Some x, Some (Num 0))) \<and>
         (\<forall>r. Reporter_send r \<notin> set (report e config c))"
  using assms by (simp add: root_inaccessible_err root_inaccessible_not_readable no_send_report)

theorem inaccessible_root_suppresses_report_witness:
  "root_inaccessible (fs env_nodir (storage_path config0)) \<and>
   getDirectorySize (fs env_nodir (storage_path config0)) = (Some ''ENOENT'', Some (Num 0)) \<and>
   (\<forall>r. Reporter_send r \<notin> set (report env_nodir config0 ''contact''))"
  using inaccessible_root_suppresses_report [of env_nodir config0 "''contact''"]
  by (simp add: env_nodir_fields)

subsection \<open>A cache file that is missing, empty or garbled\<close>

lemma env_garbled_fields:
  "cache_file env_garbled = Some ''{''" "JSON_parse env_garbled = JSON_parse0"
  by (simp_all add: env_garbled_def env_at_def)

lemma report_env_garbled:
  "report env_garbled config0 c = [Throw (SyntaxError ''Unexpected end of JSON input'')]"
  using report_throws [of env_garbled "''{''" "SyntaxError ''Unexpected end of JSON input''"]
  by (simp add: env_garbled_fields JSON_parse0_brace)

lemma report_no_cache_starts_test:
  assumes "cache_file e = None \<or> cache_file e = Some []"
  shows "\<exists>rest. report e config c = SpeedTest_test SPEEDTEST_URL # rest"
  using assms by (simp add: report_no_cache test_and_send_def SPEEDTEST_URL_truthy)

lemma send_callback_cache_file:
  "send_callback (e \<lparr> cache_file := x \<rparr>) config c bw err sz =
   send_callback e config c bw err sz"
  by (cases err) (simp_all add: send_callback_err send_callback_ok split: sum.splits)

lemma send_cache_file: "send (e \<lparr> cache_file := x \<rparr>) config c bw = send e config c bw"
  by (simp add: send_events send_callback_cache_file)

lemma test_and_send_cache_file:
  "test_and_send (e \<lparr> cache_file := x \<rparr>) config c needstest bw =
   test_and_send e config c needstest bw"
proof (cases needstest)
  case False
  then show ?thesis by (simp add: test_and_send_fresh send_cache_file)
next
  case True
  show ?thesis
  proof (cases "speedtest e")
    case (Inl m)
    then have "speedtest (e \<lparr> cache_file := x \<rparr>) = Inl m" by simp
    with Inl True show ?thesis by (simp add: test_and_send_stale_fail)
  next
    case (Inr ud)
    then obtain up down where ud: "speedtest e = Inr (up, down)" by (cases ud) simp
    then have "speedtest (e \<lparr> cache_file := x \<rparr>) = Inr (up, down)" by simp
    with ud True show ?thesis by (simp add: test_and_send_stale_ok send_cache_file)
  qed
qed

lemma report_empty_cache:
  assumes "cache_file e = None \<or> cache_file e = Some []"
  shows "report e config c = report (e \<lparr> cache_file := None \<rparr>) config c"
proof -
  have "report (e \<lparr> cache_file := None \<rparr>) config c =
        test_and_send (e \<lparr> cache_file := None \<rparr>) config c True None"
    by (simp add: report_no_cache)
  also have "\<dots> = test_and_send e config c True None"
    by (rule test_and_send_cache_file)
  finally show ?thesis using assms by (simp add: report_no_cache)
qed

text \<open>
  Counterexample to a garbled cache file being treated like a missing one: the cache
  file holds an opening brace, \<open>JSON.parse\<close> throws, and the tick ends with the
  exception; it starts no speed test, where the same tick without the file does.
\<close>

theorem garbled_cache_throws:
  "report env_garbled config0 ''contact'' =
     [Throw (SyntaxError ''Unexpected end of JSON input'')] \<and>
   hd (report (env_garbled \<lparr> cache_file := None \<rparr>) config0 ''contact'') =
     SpeedTest_test SPEEDTEST_URL"
proof -
  obtain rest where
    "report (env_garbled \<lparr> cache_file := None \<rparr>) config0 ''contact'' =
       SpeedTest_test SPEEDTEST_URL # rest"
    using report_no_cache_starts_test [of "env_garbled \<lparr> cache_file := None \<rparr>"] by auto
  then show ?thesis by (simp add: report_env_garbled)
qed

text \<open>
  C5, amended. A missing cache file, and likewise an empty one, is treated as stale
  with no sample: the tick starts a speed test, and with the empty file it does what
  it does with no file. A cache file whose content is not empty and not parseable as
  JSON is not treated so: \<open>JSON.parse\<close> throws and the tick ends with that exception,
  without a speed test.
\<close>

theorem missing_cache_is_stale_garbled_throws:
  "(cache_file e = None \<or> cache_file e = Some [] \<longrightarrow>
      (\<exists>rest. report e config c = SpeedTest_test SPEEDTEST_URL # rest) \<and>
      report e config c = report (e \<lparr> cache_file := None \<rparr>) config c) \<and>
   (\<forall>text exn. cache_file e = Some text \<and> text \<noteq> [] \<and> JSON_parse e text = Inl exn \<longrightarrow>
      report e config c = [Throw exn])"
  using report_no_cache_starts_test [of e config c] report_empty_cache [of e config c]
    report_throws [of e _ _ config c]
  by blast

theorem missing_cache_is_stale_garbled_throws_witness:
  "cache_file env_testfail = None \<and>
   (\<exists>rest. report env_testfail config0 ''contact'' = SpeedTest_test SPEEDTEST_URL # rest) \<and>
   cache_file env_garbled = Some ''{'' \<and> ''{'' \<noteq> [] \<and>
   JSON_parse env_garbled ''{'' = Inl (SyntaxError ''Unexpected end of JSON input'') \<and>
   report env_garbled config0 ''contact'' =
     [Throw (SyntaxError ''Unexpected end of JSON input'')]"
proof -
  have none: "cache_file env_testfail = None"
    by (simp add: env_testfail_fields)
  have brace: "cache_file env_garbled = Some ''{''" "''{'' \<noteq> []"
    "JSON_parse env_garbled ''{'' = Inl (SyntaxError ''Unexpected end of JSON input'')"
    by (simp_all add: env_garbled_fields JSON_parse0_brace)
  from none have "\<exists>rest. report env_testfail config0 ''contact'' = SpeedTest_test SPEEDTEST_URL # rest"
    using missing_cache_is_stale_garbled_throws [of env_testfail config0 "''contact''"]
    by blast
  moreover from brace have "report env_garbled config0 ''contact'' =
      [Throw (SyntaxError ''Unexpected end of JSON input'')]"
    using missing_cache_is_stale_garbled_throws [of env_garbled config0 "''contact''"]
    by blast
  ultimately show ?thesis using none brace by blast
qed

subsection \<open>The configured capacity\<close>







subsection \<open>The timer and the work of the tick\<close>

lemma after_timer_send:
  "after_timer (send e config c bw) =
     GetDirectorySize_callback (fst (getDirectorySize (fs e (storage_path config))))
        (snd (getDirectorySize (fs e (storage_path config)))) #
     send_callback e config c bw (fst (getDirectorySize (fs e (storage_path config))))
        (snd (getDirectorySize (fs e (storage_path config))))"
  by (simp add: send_events after_timer_def)

text \<open>
  Counterexample to the timer being started after the work of the tick: the tick at
  time 1000 with a fresh cache arms the timer second; the callback of the
  measurement, the report and its log line all come after it.
\<close>

theorem timer_armed_before_measurement_returns:
  "report (env_at 1000) config0 ''contact'' =
     [GetDirectorySize_call ''/data'', SetTimeout 300000,
      GetDirectorySize_callback None (Some (Num 8192)),
      Reporter_send (build_report config0 ''contact'' (Some sample0) (Some (Num 8192))),
      Stdout_write \<lparr> type = ''info'', message = ''sent telemetry report {}'',
                     timestamp = 32000 \<rparr>] \<and>
   list_ex is_report_work (after_timer (report (env_at 1000) config0 ''contact''))"
  by (simp add: report_env_at_fresh send_env_at after_timer_def)

lemma send_callback_report_work: "list_all is_report_work (send_callback e config c bw err sz)"
  by (cases err) (simp_all add: send_callback_err send_callback_ok)

lemma timer_in_test_and_send:
  assumes "list_ex is_SetTimeout (test_and_send e config c needstest bw)"
  shows "\<exists>pre err sz post.
     test_and_send e config c needstest bw =
       pre @ [GetDirectorySize_call (storage_path config), SetTimeout 300000,
              GetDirectorySize_callback err sz] @ post \<and>
     list_all is_speedtest_work pre \<and> list_all is_report_work post"
proof (cases needstest)
  case False
  show ?thesis
  proof (intro exI conjI)
    show "test_and_send e config c needstest bw =
      [] @ [GetDirectorySize_call (storage_path config), SetTimeout 300000,
        GetDirectorySize_callback (fst (getDirectorySize (fs e (storage_path config))))
          (snd (getDirectorySize (fs e (storage_path config))))] @
      send_callback e config c bw (fst (getDirectorySize (fs e (storage_path config))))
          (snd (getDirectorySize (fs e (storage_path config))))"
      using False by (simp add: test_and_send_fresh send_events)
    show "list_all is_speedtest_work []" by simp
    show "list_all is_report_work
      (send_callback e config c bw (fst (getDirectorySize (fs e (storage_path config))))
          (snd (getDirectorySize (fs e (storage_path config)))))"
      by (rule send_callback_report_work)
  qed
next
  case True
  show ?thesis
  proof (cases "speedtest e")
    case (Inl m)
    with True assms show ?thesis by (simp add: test_and_send_stale_fail)
  next
    case (Inr ud)
    then obtain up down where ud: "speedtest e = Inr (up, down)" by (cases ud) simp
    define b where "b = \<lparr> bandwidth.upload = up, bandwidth.download = down,
                           bandwidth.timestamp = date_now e \<rparr>"
    show ?thesis
    proof (intro exI conjI)
      show "test_and_send e config c needstest bw =
        [SpeedTest_test SPEEDTEST_URL, WriteFileSync b] @
        [GetDirectorySize_call (storage_path config), SetTimeout 300000,
          GetDirectorySize_callback (fst (getDirectorySize (fs e (storage_path config))))
            (snd (getDirectorySize (fs e (storage_path config))))] @
        send_callback e config c (Some b) (fst (getDirectorySize (fs e (storage_path config))))
            (snd (getDirectorySize (fs e (storage_path config))))"
        using True by (simp add: test_and_send_stale_ok [OF ud] send_events b_def)
      show "list_all is_speedtest_work [SpeedTest_test SPEEDTEST_URL, WriteFileSync b]"
        by simp
      show "list_all is_report_work
        (send_callback e config c (Some b) (fst (getDirectorySize (fs e (storage_path config))))
            (snd (getDirectorySize (fs e (storage_path config)))))"
        by (rule send_callback_report_work)
    qed
  qed
qed

text \<open>
  C9, amended. In every tick that arms the timer, the timer is armed in \<open>send\<close>
  right after the measurement has been started and before the measurement calls
  back: only the work of the speed-test stage (the test and the write of the cache)
  comes before the timer; the result of the measurement, the report and its log line
  come after it. The delay is 5 minutes.
\<close>

theorem timer_armed_when_measurement_starts:
  assumes "list_ex is_SetTimeout (report e config c)"
  shows "\<exists>pre err sz post.
     report e config c =
       pre @ [GetDirectorySize_call (storage_path config), SetTimeout 300000,
              GetDirectorySize_callback err sz] @ post \<and>
     list_all is_speedtest_work pre \<and> list_all is_report_work post"
proof -
  have "\<exists>needstest bw. report e config c = test_and_send e config c needstest bw"
  proof (cases "cache_file e = None \<or> cache_file e = Some []")
    case True
    then show ?thesis using report_no_cache by blast
  next
    case False
    then obtain content where content: "cache_file e = Some content" "content \<noteq> []" by auto
    show ?thesis
    proof (cases "JSON_parse e content")
      case (Inl exn)
      with content assms show ?thesis by (simp add: report_throws)
    next
      case (Inr b)
      with content show ?thesis using report_parsed by blast
    qed
  qed
  then obtain needstest bw where
    r: "report e config c = test_and_send e config c needstest bw" by blast
  show ?thesis
    unfolding r by (rule timer_in_test_and_send) (use assms r in simp)
qed

theorem timer_armed_when_measurement_starts_witness:
  "list_ex is_SetTimeout (report (env_at 1000) config0 ''contact'') \<and>
   (\<exists>pre err sz post.
     report (env_at 1000) config0 ''contact'' =
       pre @ [GetDirectorySize_call (storage_path config0), SetTimeout 300000,
              GetDirectorySize_callback err sz] @ post \<and>
     list_all is_speedtest_work pre \<and> list_all is_report_work post)"
proof -
  have "list_ex is_SetTimeout (report (env_at 1000) config0 ''contact'')"
    by (simp add: report_env_at_fresh send_env_at)
  then show ?thesis
    using timer_armed_when_measurement_starts [of "env_at 1000" config0 "''contact''"]
    by blast
qed

subsection \<open>What the report says about the storage\<close>

lemma report_sent_in_send:
  assumes "Reporter_send r \<in> set (send e config c bw)"
  shows "r = build_report config c bw (snd (getDirectorySize (fs e (storage_path config))))"
  using assms
  by (cases "fst (getDirectorySize (fs e (storage_path config)))")
     (simp_all add: send_events send_callback_ok send_callback_err)

lemma report_sent_in_test_and_send:
  assumes "Reporter_send r \<in> set (test_and_send e config c needstest bw)"
  shows "\<exists>b. r = build_report config c b (snd (getDirectorySize (fs e (storage_path config))))"
proof (cases needstest)
  case False
  with assms show ?thesis by (auto simp: test_and_send_fresh dest: report_sent_in_send)
next
  case True
  show ?thesis
  proof (cases "speedtest e")
    case (Inl m)
    with True assms show ?thesis by (simp add: test_and_send_stale_fail)
  next
    case (Inr ud)
    then obtain up down where ud: "speedtest e = Inr (up, down)" by (cases ud) simp
    with True assms show ?thesis
      by (auto simp: test_and_send_stale_ok dest: report_sent_in_send)
  qed
qed

lemma report_sent:
  assumes "Reporter_send r \<in> set (report e config c)"
  shows "\<exists>b. r = build_report config c b (snd (getDirectorySize (fs e (storage_path config))))"
proof (cases "cache_file e = None \<or> cache_file e = Some []")
  case True
  with assms show ?thesis by (simp add: report_no_cache report_sent_in_test_and_send)
next
  case False
  then obtain content where content: "cache_file e = Some content" "content \<noteq> []" by auto
  show ?thesis
  proof (cases "JSON_parse e content")
    case (Inl exn)
    with content assms show ?thesis by (simp add: report_throws)
  next
    case (Inr b)
    with content assms show ?thesis by (simp add: report_parsed report_sent_in_test_and_send)
  qed
qed

lemma totalSpace_differs:
  assumes "storage_unit config \<in> {''MB'', ''GB'', ''TB''}" and "storage_size config \<noteq> 0"
  shows "totalSpace config \<noteq> Number (storage_size config)"
  using assms by (auto simp: totalSpace_def js_times_def Let_def split: if_splits)

text \<open>
  C10. In every report that is handed to the reporter, \<open>storage.free\<close> is the
  configured \<open>storage.size\<close> as it stands and \<open>storage.used\<close> is the measured size;
  with a unit of MB, GB or TB and a capacity other than 0 the field differs from the
  capacity in bytes, which is in no field of the report.
\<close>

theorem free_is_configured_size:
  assumes "Reporter_send r \<in> set (report e config c)"
  shows "free (storage r) = storage_size config \<and>
         used (storage r) = snd (getDirectorySize (fs e (storage_path config))) \<and>
         (storage_unit config \<in> {''MB'', ''GB'', ''TB''} \<and> storage_size config \<noteq> 0 \<longrightarrow>
            Number (free (storage r)) \<noteq> totalSpace config)"
proof -
  from assms obtain b where
    "r = build_report config c b (snd (getDirectorySize (fs e (storage_path config))))"
    using report_sent by blast
  then show ?thesis
    using totalSpace_differs [of config] by (auto simp: build_report_def)
qed

theorem free_is_configured_size_witness:
  "Reporter_send (build_report config0 ''contact'' (Some sample0) (Some (Num 8192)))
     \<in> set (report (env_at 1000) config0 ''contact'') \<and>
   free (storage (build_report config0 ''contact'' (Some sample0) (Some (Num 8192)))) = 2 \<and>
   storage_size config0 = 2 \<and> totalSpace config0 = Number 2147483648"
proof -
  have "Reporter_send (build_report config0 ''contact'' (Some sample0) (Some (Num 8192)))
     \<in> set (report (env_at 1000) config0 ''contact'')"
    by (simp add: report_env_at_fresh send_env_at)
  then show ?thesis
    using free_is_configured_size [of "build_report config0 ''contact'' (Some sample0)
      (Some (Num 8192))" "env_at 1000" config0 "''contact''"]
    by (simp add: config0_fields totalSpace_def js_times_def)
qed

section \<open>Properties of the key vault\<close>

subsection \<open>The two copies fill the buffer\<close>

lemma copy_both:
  "length buf = length a + length b \<Longrightarrow> copy b (copy a buf 0) (length a) = a @ b"
  by (simp add: copy_def)

lemma encrypt_eq:
  "encrypt l password str =
     base58_encode l (fst (cipher l password (utf8_encode str)) @
                      snd (cipher l password (utf8_encode str)))"
  by (simp add: encrypt_def new_Buffer_def copy_both split: prod.splits)

lemma decrypt_eq:
  "base58_decode l str = Inr bytes \<Longrightarrow> decipher l password bytes = (a, Inr b) \<Longrightarrow>
     decrypt l password str = Inr (toString_utf8 l (a @ b))"
  by (simp add: decrypt_def new_Buffer_def copy_both)

subsection \<open>UTF-8 decoding undoes the encoding of a well-formed string\<close>

lemma unat_byte: "n < 256 \<Longrightarrow> unat (byte_of n) = n"
  by (simp add: byte_of_def unat_of_nat)

lemma unat_unit: "n < 65536 \<Longrightarrow> unat (unit_of n) = n"
  by (simp add: unit_of_def unat_of_nat)

lemma unat_byte_less: "unat (b :: byte) < 256"
proof -
  have "unat b < 2 ^ LENGTH(8)" by (rule unsigned_less)
  then show ?thesis by simp
qed

lemma unat_unit_less: "unat (u :: 16 word) < 65536"
proof -
  have "unat u < 2 ^ LENGTH(16)" by (rule unsigned_less)
  then show ?thesis by simp
qed

lemma byte_of_unat: "byte_of (unat b) = b"
  by (simp add: byte_of_def)

lemma seq1:
  assumes "cp < 0x80"
  shows "seq_len (utf8_bytes cp @ rest) = 1" "seq_cp (utf8_bytes cp @ rest) = cp"
  using assms by (simp_all add: utf8_bytes_def seq_cp_def unat_byte)

lemma seq2:
  assumes "0x80 \<le> cp" "cp < 0x800"
  shows "seq_len (utf8_bytes cp @ rest) = 2" "seq_cp (utf8_bytes cp @ rest) = cp"
proof -
  define a b where "a = cp div 64" and "b = cp mod 64"
  have a: "a < 32" "2 \<le> a" using assms by (auto simp: a_def)
  have b: "b < 64" by (simp add: b_def)
  have cp: "a * 64 + b = cp" by (simp add: a_def b_def)
  have bytes: "utf8_bytes cp = [byte_of (0xC0 + a), byte_of (0x80 + b)]"
    using assms by (simp add: utf8_bytes_def a_def b_def)
  have u: "unat (byte_of (0xC0 + a)) = 0xC0 + a" "unat (byte_of (0x80 + b)) = 0x80 + b"
    using a b by (simp_all add: unat_byte)
  have v: "cp2 (byte_of (0xC0 + a)) (byte_of (0x80 + b)) = cp"
    by (simp add: cp2_def u cp)
  show l: "seq_len (utf8_bytes cp @ rest) = 2"
    using a b by (simp add: bytes cont_def u)
  show "seq_cp (utf8_bytes cp @ rest) = cp"
    unfolding seq_cp_def l by (simp add: bytes v)
qed

lemma seq3:
  assumes "0x800 \<le> cp" "cp < 0x10000" "scalar cp"
  shows "seq_len (utf8_bytes cp @ rest) = 3" "seq_cp (utf8_bytes cp @ rest) = cp"
proof -
  define a b c where "a = cp div 4096" and "b = cp div 64 mod 64" and "c = cp mod 64"
  have a: "a < 16" using assms by (auto simp: a_def)
  have b: "b < 64" by (simp add: b_def)
  have c: "c < 64" by (simp add: c_def)
  have "cp div 4096 = cp div 64 div 64" by (simp add: div_mult2_eq)
  then have "cp div 64 = a * 64 + b" by (simp add: a_def b_def)
  then have "cp = (a * 64 + b) * 64 + c"
    unfolding c_def by (metis div_mult_mod_eq)
  then have cp: "a * 4096 + b * 64 + c = cp" by simp
  have bytes: "utf8_bytes cp = [byte_of (0xE0 + a), byte_of (0x80 + b), byte_of (0x80 + c)]"
    using assms by (simp add: utf8_bytes_def a_def b_def c_def)
  have u: "unat (byte_of (0xE0 + a)) = 0xE0 + a" "unat (byte_of (0x80 + b)) = 0x80 + b"
    "unat (byte_of (0x80 + c)) = 0x80 + c"
    using a b c by (simp_all add: unat_byte)
  have v: "cp3 (byte_of (0xE0 + a)) (byte_of (0x80 + b)) (byte_of (0x80 + c)) = cp"
    by (simp add: cp3_def u cp)
  show l: "seq_len (utf8_bytes cp @ rest) = 3"
    using assms a b c by (simp add: bytes cont_def u v)
  show "seq_cp (utf8_bytes cp @ rest) = cp"
    unfolding seq_cp_def l by (simp add: bytes v)
qed

lemma seq4:
  assumes "0x10000 \<le> cp" "scalar cp"
  shows "seq_len (utf8_bytes cp @ rest) = 4" "seq_cp (utf8_bytes cp @ rest) = cp"
proof -
  define a b c d where "a = cp div 262144" and "b = cp div 4096 mod 64"
    and "c = cp div 64 mod 64" and "d = cp mod 64"
  have a: "a < 5" using assms by (auto simp: a_def scalar_def)
  have b: "b < 64" by (simp add: b_def)
  have c: "c < 64" by (simp add: c_def)
  have d: "d < 64" by (simp add: d_def)
  have "cp div 262144 = cp div 4096 div 64" by (simp add: div_mult2_eq)
  then have 1: "cp div 4096 = a * 64 + b" by (simp add: a_def b_def)
  have "cp div 4096 = cp div 64 div 64" by (simp add: div_mult2_eq)
  with 1 have "cp div 64 = (a * 64 + b) * 64 + c"
    unfolding c_def by (metis div_mult_mod_eq)
  then have "cp = ((a * 64 + b) * 64 + c) * 64 + d"
    unfolding d_def by (metis div_mult_mod_eq)
  then have cp: "a * 262144 + b * 4096 + c * 64 + d = cp" by simp
  have bytes: "utf8_bytes cp =
      [byte_of (0xF0 + a), byte_of (0x80 + b), byte_of (0x80 + c), byte_of (0x80 + d)]"
    using assms by (simp add: utf8_bytes_def a_def b_def c_def d_def)
  have u: "unat (byte_of (0xF0 + a)) = 0xF0 + a" "unat (byte_of (0x80 + b)) = 0x80 + b"
    "unat (byte_of (0x80 + c)) = 0x80 + c" "unat (byte_of (0x80 + d)) = 0x80 + d"
    using a b c d by (simp_all add: unat_byte)
  have v: "cp4 (byte_of (0xF0 + a)) (byte_of (0x80 + b)) (byte_of (0x80 + c))
             (byte_of (0x80 + d)) = cp"
    by (simp add: cp4_def u cp)
  show l: "seq_len (utf8_bytes cp @ rest) = 4"
    using assms a b c d by (simp add: bytes cont_def u v)
  show "seq_cp (utf8_bytes cp @ rest) = cp"
    unfolding seq_cp_def l by (simp add: bytes v)
qed

lemma length_utf8_bytes: "0 < length (utf8_bytes cp)"
  by (simp add: utf8_bytes_def)

lemma seq_scalar:
  assumes "scalar cp"
  shows "seq_len (utf8_bytes cp @ rest) = length (utf8_bytes cp)"
    and "seq_cp (utf8_bytes cp @ rest) = cp"
proof -
  consider "cp < 0x80" | "0x80 \<le> cp" "cp < 0x800" | "0x800 \<le> cp" "cp < 0x10000"
    | "0x10000 \<le> cp" by linarith
  then have "seq_len (utf8_bytes cp @ rest) = length (utf8_bytes cp) \<and>
             seq_cp (utf8_bytes cp @ rest) = cp"
  proof cases
    case 1
    then show ?thesis by (simp add: seq1) (simp add: utf8_bytes_def)
  next
    case 2
    then show ?thesis by (simp add: seq2) (simp add: utf8_bytes_def)
  next
    case 3
    with assms show ?thesis by (simp add: seq3) (simp add: utf8_bytes_def)
  next
    case 4
    with assms show ?thesis by (simp add: seq4) (simp add: utf8_bytes_def)
  qed
  then show "seq_len (utf8_bytes cp @ rest) = length (utf8_bytes cp)"
    and "seq_cp (utf8_bytes cp @ rest) = cp" by simp_all
qed

lemma utf8_decode_bytes:
  assumes "scalar cp"
  shows "utf8_decode (utf8_bytes cp @ rest) = units cp @ utf8_decode rest"
proof -
  obtain b bs where bs: "utf8_bytes cp = b # bs"
    using length_utf8_bytes [of cp] by (cases "utf8_bytes cp") auto
  have "utf8_decode (utf8_bytes cp @ rest) =
        units (seq_cp (utf8_bytes cp @ rest)) @
        utf8_decode (drop (seq_len (utf8_bytes cp @ rest) - 1) (bs @ rest))"
    by (simp add: bs)
  also have "\<dots> = units cp @ utf8_decode (drop (length bs) (bs @ rest))"
    by (simp add: seq_scalar [OF assms]) (simp add: bs)
  finally show ?thesis by simp
qed

lemma units_unit: "units (unat u) = [u]"
  using unat_unit_less [of u] by (simp add: units_def unit_of_def)

lemma units_pair:
  assumes "is_high hi" "is_low lo"
  shows "units (code_point hi lo) = [hi, lo]"
proof -
  define h l where "h = unat hi - 0xD800" and "l = unat lo - 0xDC00"
  have h: "unat hi = 0xD800 + h" and l: "unat lo = 0xDC00 + l" and l4: "l < 0x400"
    using assms by (auto simp: h_def l_def is_high_def is_low_def)
  have cp: "code_point hi lo = 0x10000 + (h * 0x400 + l)"
    by (simp add: code_point_def h_def l_def)
  have "(h * 0x400 + l) div 0x400 = h" "(h * 0x400 + l) mod 0x400 = l"
    using l4 by simp_all
  then have "units (code_point hi lo) = [unit_of (unat hi), unit_of (unat lo)]"
    by (simp add: units_def cp h l)
  then show ?thesis by (simp add: unit_of_def)
qed

lemma scalar_unit: "\<not> is_high u \<Longrightarrow> \<not> is_low u \<Longrightarrow> scalar (unat u)"
  using unat_unit_less [of u] by (auto simp: scalar_def is_high_def is_low_def)

lemma scalar_pair: "is_high hi \<Longrightarrow> is_low lo \<Longrightarrow> scalar (code_point hi lo)"
  by (auto simp: scalar_def is_high_def is_low_def code_point_def)

lemma utf8_round_trip: "well_formed s \<Longrightarrow> utf8_decode (utf8_encode s) = s"
proof (induction s rule: utf8_encode.induct)
  case 1
  then show ?case by simp
next
  case (2 u)
  then have "utf8_decode (utf8_bytes (unat u) @ []) = units (unat u) @ utf8_decode []"
    by (intro utf8_decode_bytes scalar_unit) simp_all
  with 2 show ?case by (simp add: units_unit)
next
  case (3 u v us)
  show ?case
  proof (cases "is_high u")
    case True
    with 3 have v: "is_low v" and us: "well_formed us" by simp_all
    have "utf8_decode (utf8_bytes (code_point u v) @ utf8_encode us) =
          units (code_point u v) @ utf8_decode (utf8_encode us)"
      by (intro utf8_decode_bytes scalar_pair True v)
    with 3 True v us show ?thesis by (simp add: units_pair)
  next
    case False
    with 3 have u: "\<not> is_low u" and vus: "well_formed (v # us)" by simp_all
    have "utf8_decode (utf8_bytes (unat u) @ utf8_encode (v # us)) =
          units (unat u) @ utf8_decode (utf8_encode (v # us))"
      by (intro utf8_decode_bytes scalar_unit False u)
    with 3 False u vus show ?thesis by (simp add: units_unit)
  qed
qed

subsection \<open>\<open>plain_lib\<close> keeps the laws\<close>

lemma units_round_trip: "units_decode (units_encode bytes) = Inr bytes"
proof -
  have "unat (unit_of (unat b)) = unat b" for b :: byte
    using unat_byte_less [of b] by (intro unat_unit) simp
  then show ?thesis
    by (simp add: units_decode_def units_encode_def list_all_iff unat_byte_less byte_of_unat
        comp_def)
qed

lemma mask_round_trip:
  "mask_decipher password
     (fst (mask_cipher password data) @ snd (mask_cipher password data)) = (data, Inr [])"
  by (simp add: mask_decipher_def mask_cipher_def comp_def)

lemma plain_lib_laws: "lib_laws plain_lib"
  unfolding lib_laws_def
proof (intro conjI allI impI)
  fix password data a b
  assume "cipher plain_lib password data = (a, b)"
  then have "decipher plain_lib password (a @ b) = (data, Inr [])"
    using mask_round_trip [of password data] by (simp add: plain_lib_def)
  then show "\<exists>a' b'. decipher plain_lib password (a @ b) = (a', Inr b') \<and> a' @ b' = data"
    by simp
next
  fix bytes
  show "base58_decode plain_lib (base58_encode plain_lib bytes) = Inr bytes"
    by (simp add: plain_lib_def units_round_trip)
next
  fix s
  assume "well_formed s"
  then show "toString_utf8 plain_lib (utf8_encode s) = s"
    by (simp add: plain_lib_def utf8_round_trip)
qed

subsection \<open>The round trip\<close>

lemma well_formed_plaintext0: "well_formed plaintext0"
  by (simp add: plaintext0_def is_high_def is_low_def)

lemma utf8_encode_lone_surrogate: "utf8_encode [0xD800] = utf8_encode [0xFFFD]"
  by (simp add: is_high_def is_low_def)

lemma encrypt_lone_surrogate:
  "encrypt plain_lib password0 [0xD800] = [0xF1, 0xC1, 0xBF, 2]"
  by (simp add: encrypt_eq is_high_def is_low_def plain_lib_def mask_cipher_def key_of_def
      utf8_bytes_def units_encode_def byte_of_def unit_of_def password0_def)

lemma decrypt_lone_surrogate:
  "decrypt plain_lib password0 [0xF1, 0xC1, 0xBF, 2] = Inr [0xFFFD]"
proof -
  have d: "base58_decode plain_lib [0xF1, 0xC1, 0xBF, 2] = Inr [0xF1, 0xC1, 0xBF, 2]"
    by (simp add: plain_lib_def units_decode_def byte_of_def)
  have m: "decipher plain_lib password0 [0xF1, 0xC1, 0xBF, 2] = ([0xEF, 0xBF, 0xBD], Inr [])"
    by (simp add: plain_lib_def mask_decipher_def key_of_def byte_of_def password0_def)
  have u: "utf8_decode [0xEF, 0xBF, 0xBD] = [0xFFFD]"
    by (simp add: seq_cp_def cont_def cp3_def scalar_def units_def unit_of_def)
  have t: "toString_utf8 plain_lib = utf8_decode"
    by (simp add: plain_lib_def)
  show ?thesis
    using decrypt_eq [OF d m] unfolding t by (simp only: append_Nil2 u)
qed

text \<open>
  Counterexample to the round trip for every string: the string of the one code unit
  D800, a surrogate without its partner, is encrypted as the replacement character
  U+FFFD is, whatever the libraries, so that no \<open>decrypt\<close> returns both; with
  \<open>plain_lib\<close> it comes back as U+FFFD.
\<close>

theorem lone_surrogate_not_restored:
  "(\<forall>l password. encrypt l password [0xD800] = encrypt l password [0xFFFD]) \<and>
   decrypt plain_lib password0 (encrypt plain_lib password0 [0xD800]) = Inr [0xFFFD] \<and>
   [0xFFFD] \<noteq> [0xD800 :: 16 word]"
proof -
  have "encrypt l password [0xFFFD] = encrypt l password [0xD800]" for l password
    unfolding encrypt_eq utf8_encode_lone_surrogate by (rule refl)
  then show ?thesis
    by (simp add: encrypt_lone_surrogate decrypt_lone_surrogate)
qed

lemma encrypt_plaintext0: "encrypt plain_lib password0 plaintext0 = [0x63, 0x64, 0x65, 2]"
  by (simp add: encrypt_eq is_high_def is_low_def plain_lib_def mask_cipher_def key_of_def
      utf8_bytes_def units_encode_def byte_of_def unit_of_def password0_def plaintext0_def)

lemma round_trip_with_laws:
  assumes "lib_laws l" and "well_formed str"
  shows "decrypt l password (encrypt l password str) = Inr str"
proof -
  obtain a b where ab: "cipher l password (utf8_encode str) = (a, b)"
    by (cases "cipher l password (utf8_encode str)")
  with assms(1) obtain a' b' where
    d: "decipher l password (a @ b) = (a', Inr b')" and m: "a' @ b' = utf8_encode str"
    unfolding lib_laws_def by blast
  have e: "encrypt l password str = base58_encode l (a @ b)"
    by (simp add: encrypt_eq ab)
  have "base58_decode l (base58_encode l (a @ b)) = Inr (a @ b)"
    using assms(1) unfolding lib_laws_def by blast
  then have "decrypt l password (encrypt l password str) = Inr (toString_utf8 l (a' @ b'))"
    unfolding e using d by (rule decrypt_eq)
  also have "toString_utf8 l (a' @ b') = str"
    using assms unfolding lib_laws_def m by blast
  finally show ?thesis .
qed

text \<open>
  C6, amended. With libraries that keep their laws, for every password and every
  well-formed plaintext string (one without an unpaired surrogate), decrypting the
  encrypted string under the same password returns exactly the string.
\<close>

theorem decrypt_encrypt_well_formed:
  assumes "lib_laws l" and "well_formed str"
  shows "decrypt l password (encrypt l password str) = Inr str"
  using assms by (rule round_trip_with_laws)

theorem decrypt_encrypt_well_formed_witness:
  "lib_laws plain_lib \<and> well_formed plaintext0 \<and>
   encrypt plain_lib password0 plaintext0 = [0x63, 0x64, 0x65, 2] \<and>
   decrypt plain_lib password0 (encrypt plain_lib password0 plaintext0) = Inr plaintext0"
  using decrypt_encrypt_well_formed [OF plain_lib_laws well_formed_plaintext0, of password0]
  by (simp add: plain_lib_laws well_formed_plaintext0 encrypt_plaintext0)

subsection \<open>Another password\<close>

text \<open>
  Whatever \<open>decrypt\<close> throws, \<open>open\<close> prints the message of the wrong password and
  ends the process; what \<open>decrypt\<close> returns goes on as the private key.
\<close>

lemma open_privkey_decrypt_throws:
  "decrypt l passwd privkey = Inl err \<Longrightarrow>
     open_privkey l passwd privkey =
       Inl ''Failed to unlock private key - incorrect password''"
  by (simp add: open_privkey_def)

lemma open_privkey_decrypt_returns:
  "decrypt l passwd privkey = Inr key \<Longrightarrow> open_privkey l passwd privkey = Inr key"
  by (simp add: open_privkey_def)

text \<open>
  Under another password \<open>decrypt\<close> does what the decipher does with the bytes of
  the cipher: it throws what the decipher throws, and returns the text of the bytes
  that the decipher returns.
\<close>

lemma decrypt_other_password:
  assumes "lib_laws l"
  shows "decrypt l P2 (encrypt l P1 S) =
     (case decipher l P2 (fst (cipher l P1 (utf8_encode S)) @ snd (cipher l P1 (utf8_encode S))) of
        (a, Inl exn) \<Rightarrow> Inl exn
      | (a, Inr b) \<Rightarrow> Inr (toString_utf8 l (a @ b)))"
proof -
  have "base58_decode l (encrypt l P1 S) =
      Inr (fst (cipher l P1 (utf8_encode S)) @ snd (cipher l P1 (utf8_encode S)))"
    using assms unfolding lib_laws_def encrypt_eq by blast
  then show ?thesis
    by (simp add: decrypt_def new_Buffer_def copy_both split: prod.splits sum.splits)
qed

text \<open>
  There are more passwords of 25 characters (\<open>2\<^sup>4\<^sup>0\<^sup>0\<close>) than key materials
  (\<open>2\<^sup>3\<^sup>8\<^sup>4\<close>): two distinct ones have the same key material, and each decrypts
  what the other encrypts.
\<close>

lemma key_collision:
  fixes f :: "js_string \<Rightarrow> 384 word"
  shows "\<exists>p q. length p = 25 \<and> length q = 25 \<and> p \<noteq> q \<and> f p = f q"
proof -
  define A :: "js_string set" where "A = {xs. set xs \<subseteq> UNIV \<and> length xs = 25}"
  have "card A = card (UNIV :: 16 word set) ^ 25"
    unfolding A_def by (rule card_lists_length_eq) simp
  then have cA: "card A = 2 ^ 400"
    by (simp add: card_word power_mult [symmetric])
  have "card (f ` A) \<le> card (UNIV :: 384 word set)"
    by (rule card_mono) simp_all
  then have "card (f ` A) \<le> 2 ^ 384"
    by (simp add: card_word)
  also have "(2::nat) ^ 384 < 2 ^ 400"
    by (rule power_strict_increasing) simp_all
  finally have "card (f ` A) < card A"
    by (simp only: cA)
  then have "\<not> inj_on f A" by (rule pigeonhole)
  then obtain p q where "p \<in> A" "q \<in> A" "p \<noteq> q" "f p = f q"
    by (auto simp: inj_on_def)
  then show ?thesis by (auto simp: A_def)
qed

lemma same_key_material_round_trip:
  assumes "keyed l" and "lib_laws l"
  shows "\<exists>P1 P2. length P1 = 25 \<and> length P2 = 25 \<and> P1 \<noteq> P2 \<and>
           (\<forall>S. well_formed S \<longrightarrow> decrypt l P2 (encrypt l P1 S) = Inr S)"
proof -
  from assms(1) obtain f :: "js_string \<Rightarrow> 384 word" where
    f: "\<And>p q. f p = f q \<Longrightarrow> cipher l p = cipher l q \<and> decipher l p = decipher l q"
    unfolding keyed_def by blast
  obtain p q where len: "length p = 25" "length q = 25" and pq: "p \<noteq> q" "f p = f q"
    using key_collision [of f] by blast
  have d: "decipher l q = decipher l p" using f [OF pq(2)] by simp
  have "decrypt l q str = decrypt l p str" for str
    unfolding decrypt_def d by (rule refl)
  then have "decrypt l q (encrypt l p S) = Inr S" if "well_formed S" for S
    using round_trip_with_laws [OF assms(2) that, of p] by simp
  with len pq(1) show ?thesis by blast
qed

lemma plain_lib_keyed: "keyed plain_lib"
proof -
  define f :: "js_string \<Rightarrow> 384 word" where "f p = of_nat (length p mod 256)" for p
  have "cipher plain_lib p = cipher plain_lib q \<and> decipher plain_lib p = decipher plain_lib q"
    if "f p = f q" for p q
  proof -
    have less: "n mod 256 < 2 ^ LENGTH(384)" for n :: nat
    proof -
      have "n mod 256 < 256" by simp
      also have "(256 :: nat) \<le> 2 ^ LENGTH(384)" by simp
      finally show ?thesis .
    qed
    from that have "unat (of_nat (length p mod 256) :: 384 word) =
        unat (of_nat (length q mod 256) :: 384 word)"
      by (simp add: f_def)
    then have "length p mod 256 = length q mod 256"
      unfolding unat_of_nat using less by (simp only: mod_less)
    then have "key_of p = key_of q" by (simp add: key_of_def)
    then have "mask_cipher p = mask_cipher q" "mask_decipher p = mask_decipher q"
      by (auto simp: mask_cipher_def mask_decipher_def fun_eq_iff)
    then show ?thesis by (simp add: plain_lib_def)
  qed
  then show ?thesis unfolding keyed_def by blast
qed

lemma decrypt_other_length:
  "decrypt plain_lib [0x70, 0x77, 0x78] (encrypt plain_lib password0 plaintext0) =
     Inl (Error ''bad decrypt'')"
proof -
  have "decrypt plain_lib [0x70, 0x77, 0x78] [0x63, 0x64, 0x65, 2] = Inl (Error ''bad decrypt'')"
    by (simp add: decrypt_def plain_lib_def units_decode_def mask_decipher_def key_of_def
        byte_of_def)
  then show ?thesis by (simp add: encrypt_plaintext0)
qed

lemma decrypt_same_length:
  "decrypt plain_lib [0x70, 0x78] (encrypt plain_lib password0 plaintext0) = Inr plaintext0"
proof -
  have d: "base58_decode plain_lib [0x63, 0x64, 0x65, 2] = Inr [0x63, 0x64, 0x65, 2]"
    by (simp add: plain_lib_def units_decode_def byte_of_def)
  have m: "decipher plain_lib [0x70, 0x78] [0x63, 0x64, 0x65, 2] = ([0x61, 0x62, 0x63], Inr [])"
    by (simp add: plain_lib_def mask_decipher_def key_of_def byte_of_def)
  have u: "utf8_decode [0x61, 0x62, 0x63] = plaintext0"
    by (simp add: seq_cp_def units_def unit_of_def plaintext0_def)
  have t: "toString_utf8 plain_lib = utf8_decode"
    by (simp add: plain_lib_def)
  show ?thesis
    unfolding encrypt_plaintext0 using decrypt_eq [OF d m] unfolding t
    by (simp only: append_Nil2 u)
qed

text \<open>
  Counterexample to another password never returning the key: no library that takes
  the password through its key material and keeps the laws detects every other
  password; \<open>plain_lib\<close> is such a library, and it returns the plaintext that was
  encrypted under \<open>pw\<close> when it decrypts under \<open>px\<close>.
\<close>

theorem other_password_may_return_key:
  "\<not> (\<exists>l. keyed l \<and> lib_laws l \<and>
         (\<forall>P1 P2 S. P1 \<noteq> P2 \<longrightarrow> decrypt l P2 (encrypt l P1 S) \<noteq> Inr S)) \<and>
   keyed plain_lib \<and> lib_laws plain_lib \<and> [0x70, 0x78] \<noteq> password0 \<and>
   decrypt plain_lib [0x70, 0x78] (encrypt plain_lib password0 plaintext0) = Inr plaintext0"
proof -
  have "\<not> (\<forall>P1 P2 S. P1 \<noteq> P2 \<longrightarrow> decrypt l P2 (encrypt l P1 S) \<noteq> Inr S)"
    if kl: "keyed l" "lib_laws l" for l
  proof -
    obtain P1 P2 where "P1 \<noteq> P2"
      and "\<And>S. well_formed S \<Longrightarrow> decrypt l P2 (encrypt l P1 S) = Inr S"
      using same_key_material_round_trip [OF kl] by blast
    then have "P1 \<noteq> P2 \<and> decrypt l P2 (encrypt l P1 []) = Inr []" by simp
    then show ?thesis by blast
  qed
  then have "\<not> (\<exists>l. keyed l \<and> lib_laws l \<and>
         (\<forall>P1 P2 S. P1 \<noteq> P2 \<longrightarrow> decrypt l P2 (encrypt l P1 S) \<noteq> Inr S))"
    by blast
  moreover have "[0x70, 0x78] \<noteq> password0" by (simp add: password0_def)
  ultimately show ?thesis
    using plain_lib_keyed plain_lib_laws decrypt_same_length by blast
qed

text \<open>
  C7, amended. With libraries that keep their laws and take the password through
  its key material: for all passwords P1 and P2 and every plaintext S,
  decrypt(P2, encrypt(P1, S)) raises exactly what the decipher under P2 throws on
  the bytes ciphered under P1, and returns the text of the bytes that the decipher
  returns otherwise; at startup what \<open>decrypt\<close> raises is treated as a wrong password
  and ends the process, and what it returns goes on as the private key; and there
  are distinct passwords P1 and P2, of 25 characters each, for which
  decrypt(P2, encrypt(P1, S)) returns S for every well-formed S, so that another
  password is not always detected.
\<close>

theorem other_password_at_startup:
  assumes "keyed l" and "lib_laws l"
  shows
  "(\<forall>P1 P2 S. decrypt l P2 (encrypt l P1 S) =
      (case decipher l P2
              (fst (cipher l P1 (utf8_encode S)) @ snd (cipher l P1 (utf8_encode S))) of
         (a, Inl exn) \<Rightarrow> Inl exn
       | (a, Inr b) \<Rightarrow> Inr (toString_utf8 l (a @ b)))) \<and>
   (\<forall>passwd privkey err. decrypt l passwd privkey = Inl err \<longrightarrow>
      open_privkey l passwd privkey =
        Inl ''Failed to unlock private key - incorrect password'') \<and>
   (\<forall>passwd privkey key. decrypt l passwd privkey = Inr key \<longrightarrow>
      open_privkey l passwd privkey = Inr key) \<and>
   (\<exists>P1 P2. length P1 = 25 \<and> length P2 = 25 \<and> P1 \<noteq> P2 \<and>
      (\<forall>S. well_formed S \<longrightarrow> decrypt l P2 (encrypt l P1 S) = Inr S))"
  using decrypt_other_password [OF assms(2)] open_privkey_decrypt_throws [of l]
    open_privkey_decrypt_returns [of l] same_key_material_round_trip [OF assms]
  by blast

theorem other_password_at_startup_witness:
  "keyed plain_lib \<and> lib_laws plain_lib \<and>
   decrypt plain_lib [0x70, 0x77, 0x78] (encrypt plain_lib password0 plaintext0) =
     Inl (Error ''bad decrypt'') \<and>
   open_privkey plain_lib [0x70, 0x77, 0x78] (encrypt plain_lib password0 plaintext0) =
     Inl ''Failed to unlock private key - incorrect password'' \<and>
   (\<exists>P1 P2. length P1 = 25 \<and> length P2 = 25 \<and> P1 \<noteq> P2 \<and>
      (\<forall>S. well_formed S \<longrightarrow> decrypt plain_lib P2 (encrypt plain_lib P1 S) = Inr S))"
  using other_password_at_startup [OF plain_lib_keyed plain_lib_laws] decrypt_other_length
    plain_lib_keyed plain_lib_laws
  by blast

end
